theory Spec2Isabelle
  imports Main "HOL-Library.List_Lexorder" "HOL-Library.Char_ord"
begin

section \<open>The transaction lock manager (src/trans/transaction.c)\<close>

subsection \<open>Data model\<close>

text \<open>
  A thread identity (\<open>pthread_t\<close>) is a machine word read as a natural number; the value
  \<open>0\<close> is \<open>(pthread_t)NULL\<close>. Block addresses are the non-negative block numbers the
  storage layer hands out (a negative \<open>int\<close> would index outside \<open>LockTable\<close>).
\<close>

type_synonym pthread_t = nat

text \<open>
  Modelled from the spec: \<open>constants.h\<close> is not among the sources, so the integer codes
  of the lock modes, of the waiting flag, of the status and of the transaction outcome are
  enumerations here. The specification's data model names the two lock modes; its
  acquisition protocol (4.3: "while waiting, block") fixes \<open>WAIT_FOR_UNLOCK\<close> as the
  value that the loop test \<open>!lock->isWaiting\<close> of \<open>AK_acquire_lock\<close> accepts, that is
  as zero, and \<open>PASS_LOCK_QUEUE\<close> as non-zero. The test \<open>!AK_get_memory_blocks(...)\<close> of
  \<open>AK_execute_commands\<close> fixes \<open>NOT_OK\<close> as zero, which is also the initial value of
  its variable \<open>status\<close>.
\<close>

datatype lock_mode = SHARED_LOCK | EXCLUSIVE_LOCK

datatype wait_flag = WAIT_FOR_UNLOCK | PASS_LOCK_QUEUE

datatype status = NOT_OK | OK

datatype outcome = ABORT | COMMIT

text \<open>
  What a call can do other than return: dereference a null pointer, stay blocked in
  \<open>pthread_cond_wait\<close> for as long as the schedule lasts, or read the uninitialised
  local address list of \<open>AK_execute_commands\<close>.
\<close>

datatype error = Segfault | StillWaiting | Uninitialised

text \<open>
  \<open>struct transaction_locks_list_elem\<close>: one waiter of a resource's queue. The field
  \<open>ptr\<close> is the address of the node, which the code compares (\<open>tmp == lock\<close>); the links
  \<open>nextLock\<close> and \<open>prevLock\<close> are the order of the list that holds the node.
\<close>

record transaction_locks_list_elem =
  ptr :: nat
  TransactionId :: pthread_t
  lock_type :: lock_mode
  isWaiting :: wait_flag

text \<open>
  \<open>struct transaction_list_elem\<close>: the lock record of one block. The circular doubly
  linked list behind \<open>DLLLocksHead\<close> is the list of its nodes read from the head along
  \<open>nextLock\<close>; the empty list is the null head. The record's own field \<open>lock_type\<close> is
  \<open>holder_lock_type\<close> here (a record of this theory cannot reuse a field name).
\<close>

record transaction_list_elem =
  address :: nat
  holder_lock_type :: lock_mode
  DLLLocksHead :: "transaction_locks_list_elem list"

text \<open>
  The process-wide state: \<open>LockTable\<close>, an array of \<open>NUMBER_OF_KEYS\<close> buckets, each the
  circular list behind \<open>DLLHead\<close> read from the head along \<open>nextBucket\<close>; and the
  allocator, which serves \<open>heap_left\<close> more requests, the next one at address
  \<open>heap_next\<close> (the code never frees a node). The constant \<open>NUMBER_OF_KEYS\<close> of the
  missing \<open>constants.h\<close> is the parameter \<open>keys\<close> of every function that uses it.
\<close>

record lock_state =
  LockTable :: "nat \<Rightarrow> transaction_list_elem list"
  heap_next :: nat
  heap_left :: nat

definition malloc :: "lock_state \<Rightarrow> nat option \<times> lock_state" where
  "malloc s =
     (if heap_left s = 0 then (None, s)
      else (Some (heap_next s), s\<lparr>heap_next := heap_next s + 1, heap_left := heap_left s - 1\<rparr>))"

subsection \<open>The hash table of lock records\<close>

definition AK_memory_block_hash :: "nat \<Rightarrow> nat \<Rightarrow> nat" where
  "AK_memory_block_hash keys blockMemoryAddress = blockMemoryAddress mod keys"

text \<open>The do-while loop visits every record of the bucket once, from the head.\<close>

definition AK_search_existing_link_for_hook ::
    "nat \<Rightarrow> lock_state \<Rightarrow> nat \<Rightarrow> transaction_list_elem option" where
  "AK_search_existing_link_for_hook keys s blockAddress =
     find (\<lambda>tmp. address tmp = blockAddress)
       (LockTable s (AK_memory_block_hash keys blockAddress))"

text \<open>
  \<open>AK_search_empty_link_for_hook\<close> allocates a zero-filled head when the bucket has none
  (\<open>memset\<close> on a null result of \<open>malloc\<close> is the crash) and returns the head. The
  result says whether the head is the fresh one, which is what the caller's test
  \<open>!root->nextBucket\<close> reads: every head that \<open>AK_add_hash_entry_list\<close> has finished with
  is linked to itself or to its neighbours.
\<close>

definition AK_search_empty_link_for_hook ::
    "nat \<Rightarrow> lock_state \<Rightarrow> nat \<Rightarrow> error + (bool \<times> lock_state)" where
  "AK_search_empty_link_for_hook keys s blockAddress =
     (if LockTable s (AK_memory_block_hash keys blockAddress) = [] then
        (case malloc s of
           (None, _) \<Rightarrow> Inl Segfault
         | (Some _, s') \<Rightarrow> Inr (True, s'))
      else Inr (False, s))"

definition set_bucket :: "nat \<Rightarrow> transaction_list_elem list \<Rightarrow> lock_state \<Rightarrow> lock_state" where
  "set_bucket hash b s = s\<lparr>LockTable := (LockTable s)(hash := b)\<rparr>"

text \<open>
  \<open>AK_add_hash_entry_list\<close>: the existing record if there is one; otherwise a new record
  with an empty queue, which is the fresh head of an empty bucket or a node linked in
  before the head, that is at the end of the list read from the head.
\<close>

definition AK_add_hash_entry_list :: "nat \<Rightarrow> nat \<Rightarrow> lock_mode \<Rightarrow> lock_state \<Rightarrow> error + lock_state" where
  "AK_add_hash_entry_list keys blockAddress type s =
     (case AK_search_existing_link_for_hook keys s blockAddress of
        Some root \<Rightarrow> Inr s
      | None \<Rightarrow>
         (let hash = AK_memory_block_hash keys blockAddress;
              bucket = \<lparr>address = blockAddress, holder_lock_type = type, DLLLocksHead = []\<rparr>
          in case AK_search_empty_link_for_hook keys s blockAddress of
               Inl e \<Rightarrow> Inl e
             | Inr (True, s') \<Rightarrow> Inr (set_bucket hash [bucket] s')
             | Inr (False, s') \<Rightarrow>
                 (case malloc s' of
                    (None, _) \<Rightarrow> Inl Segfault
                  | (Some _, s'') \<Rightarrow>
                      Inr (set_bucket hash (LockTable s'' hash @ [bucket]) s''))))"

text \<open>
  \<open>AK_delete_hash_entry_list\<close> unlinks the record of the block: the list read from the
  head loses its first node with that address (the head moves on when it was the head,
  and is null when the node was alone).
\<close>

fun unlink_bucket :: "nat \<Rightarrow> transaction_list_elem list \<Rightarrow> transaction_list_elem list" where
  "unlink_bucket blockAddress [] = []"
| "unlink_bucket blockAddress (e # es) =
     (if address e = blockAddress then es else e # unlink_bucket blockAddress es)"

definition AK_delete_hash_entry_list :: "nat \<Rightarrow> nat \<Rightarrow> lock_state \<Rightarrow> status \<times> lock_state" where
  "AK_delete_hash_entry_list keys blockAddress s =
     (let hash = AK_memory_block_hash keys blockAddress in
      case AK_search_existing_link_for_hook keys s blockAddress of
        Some elemDelete \<Rightarrow> (OK, set_bucket hash (unlink_bucket blockAddress (LockTable s hash)) s)
      | None \<Rightarrow> (NOT_OK, s))"

text \<open>
  Writing through a pointer to a lock record: the first record of the bucket with the
  block's address (the one \<open>AK_search_existing_link_for_hook\<close> returns) is replaced.
\<close>

fun store_elem :: "transaction_list_elem \<Rightarrow> transaction_list_elem list \<Rightarrow> transaction_list_elem list" where
  "store_elem new [] = []"
| "store_elem new (e # es) =
     (if address e = address new then new # es else e # store_elem new es)"

definition write_elem :: "nat \<Rightarrow> transaction_list_elem \<Rightarrow> lock_state \<Rightarrow> lock_state" where
  "write_elem keys new s =
     (let hash = AK_memory_block_hash keys (address new)
      in set_bucket hash (store_elem new (LockTable s hash)) s)"

subsection \<open>The queue of a lock record\<close>

text \<open>
  \<open>AK_search_lock_entry_list_by_key\<close>: the head if it is null or belongs to the
  transaction; otherwise the loop looks at \<open>NUMBER_OF_KEYS + 1\<close> nodes from the head
  along \<open>nextLock\<close> (\<open>counter++ <= NUMBER_OF_KEYS\<close>). On a circular list these are the
  first \<open>NUMBER_OF_KEYS + 1\<close> nodes of the list, and a longer walk only meets them again.
\<close>

definition AK_search_lock_entry_list_by_key ::
    "nat \<Rightarrow> transaction_list_elem \<Rightarrow> pthread_t \<Rightarrow> transaction_locks_list_elem option" where
  "AK_search_lock_entry_list_by_key keys Lockslist tid =
     find (\<lambda>tmpElem. TransactionId tmpElem = tid) (take (keys + 1) (DLLLocksHead Lockslist))"

text \<open>
  The do-while loop of \<open>AK_delete_lock_entry_list\<close>: unlink the node found, search
  again, until the search finds nothing.
\<close>

function delete_entries :: "nat \<Rightarrow> pthread_t \<Rightarrow> transaction_list_elem \<Rightarrow> transaction_list_elem" where
  "delete_entries keys tid elemListHolder =
     (case AK_search_lock_entry_list_by_key keys elemListHolder tid of
        None \<Rightarrow> elemListHolder
      | Some elemDelete \<Rightarrow>
          delete_entries keys tid
            (elemListHolder\<lparr>DLLLocksHead := remove1 elemDelete (DLLLocksHead elemListHolder)\<rparr>))"
  by pat_completeness auto

lemma find_take_in_set: "find P (take n xs) = Some x \<Longrightarrow> x \<in> set xs"
  by (metis find_Some_iff in_set_takeD nth_mem)

termination delete_entries
proof (relation "measure (\<lambda>(keys, tid, e). length (DLLLocksHead e))")
  show "wf (measure (\<lambda>(keys, tid, e). length (DLLLocksHead e)))" by simp
next
  fix keys tid elemListHolder elemDelete
  assume "AK_search_lock_entry_list_by_key keys elemListHolder tid = Some elemDelete"
  then have "elemDelete \<in> set (DLLLocksHead elemListHolder)"
    unfolding AK_search_lock_entry_list_by_key_def by (rule find_take_in_set)
  then have "length (remove1 elemDelete (DLLLocksHead elemListHolder))
      < length (DLLLocksHead elemListHolder)"
    by (simp add: length_remove1) (cases "DLLLocksHead elemListHolder", auto)
  then show "((keys, tid, elemListHolder\<lparr>DLLLocksHead := remove1 elemDelete (DLLLocksHead elemListHolder)\<rparr>),
      (keys, tid, elemListHolder)) \<in> measure (\<lambda>(keys, tid, e). length (DLLLocksHead e))"
    by simp
qed

declare delete_entries.simps [simp del]

text \<open>
  \<open>AK_delete_lock_entry_list\<close>: the search for the record dereferences its result, so a
  block with no record is the crash.
\<close>

definition AK_delete_lock_entry_list ::
    "nat \<Rightarrow> nat \<Rightarrow> pthread_t \<Rightarrow> lock_state \<Rightarrow> error + (status \<times> lock_state)" where
  "AK_delete_lock_entry_list keys blockAddress tid s =
     (case AK_search_existing_link_for_hook keys s blockAddress of
        None \<Rightarrow> Inl Segfault
      | Some elemListHolder \<Rightarrow>
         (case AK_search_lock_entry_list_by_key keys elemListHolder tid of
            None \<Rightarrow> Inr (NOT_OK, s)
          | Some elemDelete \<Rightarrow>
              Inr (OK, write_elem keys (delete_entries keys tid elemListHolder) s)))"

subsection \<open>The compatibility oracle\<close>

text \<open>
  \<open>AK_isLock_waiting\<close> reads the head of the queue only: its node address, its
  \<open>lock_type\<close> and its \<open>TransactionId\<close>, never its \<open>isWaiting\<close>. It writes the record's
  mode when the tested node is the head. A null head is dereferenced.
\<close>

definition AK_isLock_waiting ::
    "transaction_list_elem \<Rightarrow> lock_mode \<Rightarrow> pthread_t \<Rightarrow> nat \<Rightarrow> error + (wait_flag \<times> transaction_list_elem)" where
  "AK_isLock_waiting lockHolder type transactionId lock =
     (case DLLLocksHead lockHolder of
        [] \<Rightarrow> Inl Segfault
      | tmp # _ \<Rightarrow>
          if ptr tmp = lock then
            Inr (PASS_LOCK_QUEUE, lockHolder\<lparr>holder_lock_type := type\<rparr>)
          else if lock_type tmp = SHARED_LOCK then
            (if type = SHARED_LOCK then Inr (PASS_LOCK_QUEUE, lockHolder)
             else if type = EXCLUSIVE_LOCK then Inr (WAIT_FOR_UNLOCK, lockHolder)
             else Inr (WAIT_FOR_UNLOCK, lockHolder))
          else if lock_type tmp = EXCLUSIVE_LOCK then
            (if TransactionId tmp = transactionId then Inr (PASS_LOCK_QUEUE, lockHolder)
             else Inr (WAIT_FOR_UNLOCK, lockHolder))
          else Inr (WAIT_FOR_UNLOCK, lockHolder))"

subsection \<open>Enqueueing a waiter\<close>

definition set_waiting :: "nat \<Rightarrow> wait_flag \<Rightarrow> transaction_list_elem \<Rightarrow> transaction_list_elem" where
  "set_waiting lock w e =
     e\<lparr>DLLLocksHead := map (\<lambda>l. if ptr l = lock then l\<lparr>isWaiting := w\<rparr> else l) (DLLLocksHead e)\<rparr>"

text \<open>
  \<open>AK_add_lock\<close>: a zero-filled node (\<open>memset\<close> on a null result of \<open>malloc\<close> is the
  crash), which becomes the head of an empty queue or is linked in before the head, that
  is at the tail; then the oracle's answer is stored in the node. The result is the
  node's address, its flag, and the state with the record written back.
\<close>

definition AK_add_lock ::
    "nat \<Rightarrow> transaction_list_elem \<Rightarrow> lock_mode \<Rightarrow> pthread_t \<Rightarrow> lock_state
      \<Rightarrow> error + (nat \<times> wait_flag \<times> lock_state)" where
  "AK_add_lock keys HashList type transactionId s =
     (case malloc s of
        (None, _) \<Rightarrow> Inl Segfault
      | (Some p, s') \<Rightarrow>
         (let lock = \<lparr>ptr = p, TransactionId = transactionId, lock_type = type,
                      isWaiting = WAIT_FOR_UNLOCK\<rparr>;
              linked = (case DLLLocksHead HashList of
                          [] \<Rightarrow> HashList\<lparr>DLLLocksHead := [lock]\<rparr>
                        | root # _ \<Rightarrow> HashList\<lparr>DLLLocksHead := DLLLocksHead HashList @ [lock]\<rparr>)
          in case AK_isLock_waiting linked type transactionId p of
               Inl e \<Rightarrow> Inl e
             | Inr (w, HashList') \<Rightarrow> Inr (p, w, write_elem keys (set_waiting p w HashList') s')))"

definition AK_create_lock ::
    "nat \<Rightarrow> nat \<Rightarrow> lock_mode \<Rightarrow> pthread_t \<Rightarrow> lock_state \<Rightarrow> error + (nat \<times> wait_flag \<times> lock_state)" where
  "AK_create_lock keys blockAddress type transactionId s =
     (case AK_search_existing_link_for_hook keys s blockAddress of
        Some elem \<Rightarrow> AK_add_lock keys elem type transactionId s
      | None \<Rightarrow>
         (case AK_add_hash_entry_list keys blockAddress type s of
            Inl e \<Rightarrow> Inl e
          | Inr s' \<Rightarrow>
             (case AK_search_existing_link_for_hook keys s' blockAddress of
                None \<Rightarrow> Inl Segfault
              | Some elem \<Rightarrow> AK_add_lock keys elem type transactionId s')))"

subsection \<open>Acquire and release\<close>

text \<open>
  A waiting thread sleeps in \<open>pthread_cond_wait\<close> while other threads run. A schedule is
  the list of what the rest of the process does to the state during each sleep of the
  calling thread, one entry per wake-up; the thread re-evaluates the oracle after each.
  A call whose schedule ends while it still waits has not returned: \<open>StillWaiting\<close>.
\<close>

type_synonym schedule = "(lock_state \<Rightarrow> error + lock_state) list"

text \<open>
  The loop \<open>while (!lock->isWaiting)\<close> of \<open>AK_acquire_lock\<close>. The flag \<open>w\<close> is the
  node's \<open>isWaiting\<close>, which only the calling thread writes; \<open>tmp\<close> is the record of the
  block.
\<close>

fun acquire_wait ::
    "nat \<Rightarrow> nat \<Rightarrow> lock_mode \<Rightarrow> pthread_t \<Rightarrow> nat \<Rightarrow> wait_flag \<Rightarrow> schedule \<Rightarrow> lock_state
      \<Rightarrow> error + (schedule \<times> lock_state)" where
  "acquire_wait keys memoryAddress type transactionId lock PASS_LOCK_QUEUE env s = Inr (env, s)"
| "acquire_wait keys memoryAddress type transactionId lock WAIT_FOR_UNLOCK [] s = Inl StillWaiting"
| "acquire_wait keys memoryAddress type transactionId lock WAIT_FOR_UNLOCK (others # env) s =
     (case others s of
        Inl e \<Rightarrow> Inl e
      | Inr s' \<Rightarrow>
         (case AK_search_existing_link_for_hook keys s' memoryAddress of
            None \<Rightarrow> Inl Segfault
          | Some tmp \<Rightarrow>
             (case AK_isLock_waiting tmp type transactionId lock of
                Inl e \<Rightarrow> Inl e
              | Inr (w, tmp') \<Rightarrow>
                  acquire_wait keys memoryAddress type transactionId lock w env
                    (write_elem keys (set_waiting lock w tmp') s'))))"

definition AK_acquire_lock ::
    "nat \<Rightarrow> nat \<Rightarrow> lock_mode \<Rightarrow> pthread_t \<Rightarrow> schedule \<Rightarrow> lock_state
      \<Rightarrow> error + (status \<times> schedule \<times> lock_state)" where
  "AK_acquire_lock keys memoryAddress type transactionId env s =
     (case AK_create_lock keys memoryAddress type transactionId s of
        Inl e \<Rightarrow> Inl e
      | Inr (lock, w, s1) \<Rightarrow>
         (case acquire_wait keys memoryAddress type transactionId lock w env s1 of
            Inl e \<Rightarrow> Inl e
          | Inr (env', s2) \<Rightarrow> Inr (OK, env', s2)))"

text \<open>
  \<open>AK_release_locks\<close> walks the address list to its sentinel. For each block it deletes
  the transaction's nodes and then reads \<open>DLLLocksHead\<close> through the result of the
  record search, which is the crash when the block has no record. The inner \<open>while\<close>
  over the waiting nodes only moves a local pointer (the assignment in it is commented
  out), and \<open>AK_lock_released\<close> broadcasts the condition variable: neither changes the
  lock table.
\<close>

fun AK_release_locks :: "nat \<Rightarrow> nat list \<Rightarrow> pthread_t \<Rightarrow> lock_state \<Rightarrow> error + lock_state" where
  "AK_release_locks keys [] transactionId s = Inr s"
| "AK_release_locks keys (adresa # addressesTmp) transactionId s =
     (case AK_delete_lock_entry_list keys adresa transactionId s of
        Inl e \<Rightarrow> Inl e
      | Inr (_, s') \<Rightarrow>
         (case AK_search_existing_link_for_hook keys s' adresa of
            None \<Rightarrow> Inl Segfault
          | Some _ \<Rightarrow> AK_release_locks keys addressesTmp transactionId s'))"

text \<open>The lock table after \<open>memset(LockTable, 0, ...)\<close>, with \<open>n\<close> allocations to serve.\<close>

definition empty_table :: "nat \<Rightarrow> lock_state" where
  "empty_table n = \<lparr>LockTable = (\<lambda>_. []), heap_next = 1, heap_left = n\<rparr>"

text \<open>The queue of a block, and the nodes of it that are granted.\<close>

definition queue_of :: "nat \<Rightarrow> lock_state \<Rightarrow> nat \<Rightarrow> transaction_locks_list_elem list" where
  "queue_of keys s blockAddress =
     (case AK_search_existing_link_for_hook keys s blockAddress of
        None \<Rightarrow> []
      | Some e \<Rightarrow> DLLLocksHead e)"

definition granted :: "transaction_locks_list_elem \<Rightarrow> bool" where
  "granted l = (isWaiting l = PASS_LOCK_QUEUE)"

text \<open>
  Running a call of another thread to its return, as an entry of a schedule or as a step
  of a scenario; \<open>enqueues\<close> is the part of \<open>AK_acquire_lock\<close> under
  \<open>acquireLockMutex\<close>, after which the caller may sleep.
\<close>

definition other_acquires ::
    "nat \<Rightarrow> nat \<Rightarrow> lock_mode \<Rightarrow> pthread_t \<Rightarrow> schedule \<Rightarrow> lock_state \<Rightarrow> error + lock_state" where
  "other_acquires keys memoryAddress type transactionId env s =
     (case AK_acquire_lock keys memoryAddress type transactionId env s of
        Inl e \<Rightarrow> Inl e
      | Inr (_, _, s') \<Rightarrow> Inr s')"

definition enqueues :: "nat \<Rightarrow> nat \<Rightarrow> lock_mode \<Rightarrow> pthread_t \<Rightarrow> lock_state \<Rightarrow> error + lock_state" where
  "enqueues keys memoryAddress type transactionId s =
     (case AK_create_lock keys memoryAddress type transactionId s of
        Inl e \<Rightarrow> Inl e
      | Inr (_, _, s') \<Rightarrow> Inr s')"

definition with_state :: "error + lock_state \<Rightarrow> (lock_state \<Rightarrow> error + lock_state) \<Rightarrow> error + lock_state" where
  "with_state r f = (case r of Inl e \<Rightarrow> Inl e | Inr s \<Rightarrow> f s)"

definition queue_after ::
    "nat \<Rightarrow> nat \<Rightarrow> error + lock_state \<Rightarrow> error + transaction_locks_list_elem list" where
  "queue_after keys blockAddress r =
     (case r of Inl e \<Rightarrow> Inl e | Inr s \<Rightarrow> Inr (queue_of keys s blockAddress))"

definition bucket_after :: "nat \<Rightarrow> nat \<Rightarrow> error + lock_state \<Rightarrow> error + transaction_list_elem list" where
  "bucket_after keys blockAddress r =
     (case r of
        Inl e \<Rightarrow> Inl e
      | Inr s \<Rightarrow> Inr (LockTable s (AK_memory_block_hash keys blockAddress)))"

subsection \<open>The properties the specification states of a queue\<close>

text \<open>
  The oracle in the specification's words (4.2): grant when the tested waiter is the head,
  or the head is granted and shared and the waiter wants shared, or the head is granted
  and exclusive and belongs to the waiter's transaction. A waiter is granted when its
  waiting flag is cleared.
\<close>

definition spec_oracle_grants ::
    "transaction_list_elem \<Rightarrow> lock_mode \<Rightarrow> pthread_t \<Rightarrow> nat \<Rightarrow> bool" where
  "spec_oracle_grants lockHolder type transactionId lock =
     (case DLLLocksHead lockHolder of
        [] \<Rightarrow> False
      | head # _ \<Rightarrow>
          ptr head = lock
          \<or> (granted head \<and> lock_type head = SHARED_LOCK \<and> type = SHARED_LOCK)
          \<or> (granted head \<and> lock_type head = EXCLUSIVE_LOCK
              \<and> TransactionId head = transactionId))"

text \<open>What the code asks of the head: its requested mode and its owner.\<close>

definition head_admits :: "transaction_locks_list_elem \<Rightarrow> lock_mode \<Rightarrow> pthread_t \<Rightarrow> bool" where
  "head_admits tmp type transactionId =
     ((lock_type tmp = SHARED_LOCK \<and> type = SHARED_LOCK)
      \<or> (lock_type tmp = EXCLUSIVE_LOCK \<and> TransactionId tmp = transactionId))"

text \<open>
  Mutual exclusion on one queue: whoever holds a granted exclusive node is the only
  transaction with a granted node.
\<close>

definition mutual_exclusion :: "transaction_locks_list_elem list \<Rightarrow> bool" where
  "mutual_exclusion q =
     list_all (\<lambda>x. list_all (\<lambda>y. TransactionId y = TransactionId x) (filter granted q))
       (filter (\<lambda>l. granted l \<and> lock_type l = EXCLUSIVE_LOCK) q)"

text \<open>
  First in, first out, modulo shared coalescing, on one queue. Nodes are linked in at the
  tail, so the list order is the order of enqueueing; a flag, once cleared, is never set
  again. So a granted node behind a node that still waits, the two not both shared, is a
  grant that overtook an earlier waiter.
\<close>

definition overtakes :: "transaction_locks_list_elem \<Rightarrow> transaction_locks_list_elem \<Rightarrow> bool" where
  "overtakes w2 w1 =
     (granted w2 \<and> isWaiting w1 = WAIT_FOR_UNLOCK
      \<and> (lock_type w1 = EXCLUSIVE_LOCK \<or> lock_type w2 = EXCLUSIVE_LOCK))"

fun fifo_respected :: "transaction_locks_list_elem list \<Rightarrow> bool" where
  "fifo_respected [] = True"
| "fifo_respected (w1 # later) =
     (list_all (\<lambda>w2. \<not> overtakes w2 w1) later \<and> fifo_respected later)"

text \<open>Every record of a bucket has a waiter.\<close>

definition records_have_waiters :: "transaction_list_elem list \<Rightarrow> bool" where
  "records_have_waiters b = list_all (\<lambda>e. DLLLocksHead e \<noteq> []) b"

subsection \<open>Scenarios\<close>

text \<open>
  Block 200 after transaction 1 released its exclusive lock while transactions 2 and 3
  waited for shared locks: neither has woken up yet.
\<close>

definition woken_record :: transaction_list_elem where
  "woken_record =
     \<lparr>address = 200, holder_lock_type = EXCLUSIVE_LOCK,
      DLLLocksHead =
        [\<lparr>ptr = 3, TransactionId = 2, lock_type = SHARED_LOCK, isWaiting = WAIT_FOR_UNLOCK\<rparr>,
         \<lparr>ptr = 4, TransactionId = 3, lock_type = SHARED_LOCK, isWaiting = WAIT_FOR_UNLOCK\<rparr>]\<rparr>"

text \<open>
  Scenario L3 of the specification on an empty table of 4096 buckets: transaction 1
  acquires block 300 shared, then transaction 2 asks for it exclusive and sleeps through
  \<open>T2_sleeps\<close>.
\<close>

definition shared_then_exclusive :: "schedule \<Rightarrow> error + lock_state" where
  "shared_then_exclusive T2_sleeps =
     with_state (other_acquires 4096 300 SHARED_LOCK 1 [] (empty_table 16))
       (other_acquires 4096 300 EXCLUSIVE_LOCK 2 T2_sleeps)"

text \<open>The same, stopped when transaction 2 has enqueued and transaction 3 has asked.\<close>

definition shared_exclusive_shared_enqueued :: "error + lock_state" where
  "shared_exclusive_shared_enqueued =
     with_state
       (with_state (other_acquires 4096 300 SHARED_LOCK 1 [] (empty_table 16))
          (enqueues 4096 300 EXCLUSIVE_LOCK 2))
       (other_acquires 4096 300 SHARED_LOCK 3 [])"

text \<open>Transaction 1 acquires block 300 shared and releases it.\<close>

definition acquired_and_released :: "error + lock_state" where
  "acquired_and_released =
     with_state (other_acquires 4096 300 SHARED_LOCK 1 [] (empty_table 16))
       (AK_release_locks 4096 [300] 1)"

text \<open>The record of block 300 when transaction 1 holds it shared and 2 waits for it.\<close>

definition two_queued :: transaction_list_elem where
  "two_queued =
     \<lparr>address = 300, holder_lock_type = SHARED_LOCK,
      DLLLocksHead =
        [\<lparr>ptr = 2, TransactionId = 1, lock_type = SHARED_LOCK, isWaiting = PASS_LOCK_QUEUE\<rparr>,
         \<lparr>ptr = 3, TransactionId = 2, lock_type = EXCLUSIVE_LOCK, isWaiting = WAIT_FOR_UNLOCK\<rparr>]\<rparr>"

definition two_queued_state :: lock_state where
  "two_queued_state = \<lparr>LockTable = (\<lambda>_. [])(300 := [two_queued]), heap_next = 4, heap_left = 13\<rparr>"

text \<open>Block 300 held shared by transaction 1 alone, and the table after its release.\<close>

definition one_holder_state :: lock_state where
  "one_holder_state =
     \<lparr>LockTable = (\<lambda>_. [])(300 :=
        [\<lparr>address = 300, holder_lock_type = SHARED_LOCK,
          DLLLocksHead = [\<lparr>ptr = 2, TransactionId = 1, lock_type = SHARED_LOCK,
                           isWaiting = PASS_LOCK_QUEUE\<rparr>]\<rparr>]),
      heap_next = 3, heap_left = 14\<rparr>"

definition released_state :: lock_state where
  "released_state =
     \<lparr>LockTable = (\<lambda>_. [])(300 :=
        [\<lparr>address = 300, holder_lock_type = SHARED_LOCK, DLLLocksHead = []\<rparr>]),
      heap_next = 3, heap_left = 14\<rparr>"

section \<open>The transaction worker (\<open>AK_execute_commands\<close>)\<close>

text \<open>
  Modelled from the spec: \<open>command.h\<close> is not among the sources. The specification's
  command is a table name, a kind among select, update, delete and insert, and parameters
  the lock manager never reads. The field \<open>id_command\<close> is an integer in the code, and
  \<open>OTHER_COMMAND\<close> stands for every value that the \<open>switch\<close> sends to \<open>default\<close>.
\<close>

datatype command_kind = SELECT | UPDATE | DELETE | INSERT | OTHER_COMMAND

record command =
  tblName :: string
  id_command :: command_kind

text \<open>
  \<open>AK_get_memory_blocks\<close>. The storage layer (\<open>AK_get_table_addresses\<close>, not part of
  the lock manager) is the parameter \<open>table_addresses\<close>, which gives \<open>address_from[0]\<close>
  and \<open>address_to[0]\<close> of a table. The address list of the caller is \<open>None\<close> while it is
  the uninitialised local variable, and otherwise the addresses of its nodes up to the
  sentinel.
\<close>

definition AK_get_memory_blocks ::
    "(string \<Rightarrow> nat \<times> nat) \<Rightarrow> string \<Rightarrow> nat list option \<Rightarrow> status \<times> nat list option" where
  "AK_get_memory_blocks table_addresses name addressList =
     (case table_addresses name of
        (address_from, address_to) \<Rightarrow>
          if address_from = 0 then (NOT_OK, addressList)
          else (OK, Some [address_from ..< address_to]))"

text \<open>
  The inner \<open>while\<close> of \<open>AK_execute_commands\<close> over the blocks of one command:
  \<open>addresses\<close> is the whole list (which the abort path releases), the next argument
  the part still to lock, from the pointer \<open>address\<close> on. It either goes through, or
  takes the branch \<open>status == NOT_OK\<close>.
\<close>

datatype progress = Aborted lock_state | Locked status schedule lock_state

fun acquire_blocks ::
    "nat \<Rightarrow> command_kind \<Rightarrow> pthread_t \<Rightarrow> nat list \<Rightarrow> nat list \<Rightarrow> status \<Rightarrow> schedule \<Rightarrow> lock_state
      \<Rightarrow> error + progress" where
  "acquire_blocks keys kind self addresses [] status env s = Inr (Locked status env s)"
| "acquire_blocks keys kind self addresses (adresa # remaining) status env s =
     (case (case kind of
              UPDATE \<Rightarrow> AK_acquire_lock keys adresa EXCLUSIVE_LOCK self env s
            | DELETE \<Rightarrow> AK_acquire_lock keys adresa EXCLUSIVE_LOCK self env s
            | INSERT \<Rightarrow> AK_acquire_lock keys adresa EXCLUSIVE_LOCK self env s
            | SELECT \<Rightarrow> AK_acquire_lock keys adresa SHARED_LOCK self env s
            | OTHER_COMMAND \<Rightarrow> Inr (status, env, s)) of
        Inl e \<Rightarrow> Inl e
      | Inr (status', env', s') \<Rightarrow>
          if status' = NOT_OK then
            (case AK_release_locks keys addresses self s' of
               Inl e \<Rightarrow> Inl e
             | Inr s'' \<Rightarrow> Inr (Aborted s''))
          else acquire_blocks keys kind self addresses remaining status' env' s')"

text \<open>
  The \<open>for\<close> loop over the commands and what follows it. \<open>AK_command\<close>, the row-level
  executor, does not touch the lock table. The variables \<open>status\<close> and \<open>addresses\<close>
  live across the iterations: each command overwrites the address list with its own
  blocks.
\<close>

fun execute_loop ::
    "nat \<Rightarrow> (string \<Rightarrow> nat \<times> nat) \<Rightarrow> pthread_t \<Rightarrow> command list \<Rightarrow> status \<Rightarrow> nat list option
      \<Rightarrow> schedule \<Rightarrow> lock_state \<Rightarrow> error + (outcome \<times> lock_state)" where
  "execute_loop keys table_addresses self [] status addresses env s =
     (case addresses of
        None \<Rightarrow> Inl Uninitialised
      | Some a \<Rightarrow>
         (case AK_release_locks keys a self s of
            Inl e \<Rightarrow> Inl e
          | Inr s' \<Rightarrow> Inr (COMMIT, s')))"
| "execute_loop keys table_addresses self (c # commandArray) status addresses env s =
     (case AK_get_memory_blocks table_addresses (tblName c) addresses of
        (NOT_OK, _) \<Rightarrow> Inr (ABORT, s)
      | (OK, None) \<Rightarrow> Inl Uninitialised
      | (OK, Some a) \<Rightarrow>
         (case acquire_blocks keys (id_command c) self a a status env s of
            Inl e \<Rightarrow> Inl e
          | Inr (Aborted s') \<Rightarrow> Inr (ABORT, s')
          | Inr (Locked status' env' s') \<Rightarrow>
              execute_loop keys table_addresses self commandArray status' (Some a) env' s'))"

text \<open>
  \<open>AK_execute_commands\<close>, run by the thread \<open>self\<close> (\<open>pthread_self()\<close>): \<open>status\<close>
  starts as zero, the address list uninitialised.
\<close>

definition AK_execute_commands ::
    "nat \<Rightarrow> (string \<Rightarrow> nat \<times> nat) \<Rightarrow> pthread_t \<Rightarrow> command list \<Rightarrow> schedule \<Rightarrow> lock_state
      \<Rightarrow> error + (outcome \<times> lock_state)" where
  "AK_execute_commands keys table_addresses self commandArray env s =
     execute_loop keys table_addresses self commandArray NOT_OK None env s"

definition outcome_and_queue ::
    "nat \<Rightarrow> nat \<Rightarrow> error + (outcome \<times> lock_state)
      \<Rightarrow> error + (outcome \<times> transaction_locks_list_elem list)" where
  "outcome_and_queue keys blockAddress r =
     (case r of
        Inl e \<Rightarrow> Inl e
      | Inr (out, s) \<Rightarrow> Inr (out, queue_of keys s blockAddress))"

text \<open>A storage layer with one table, \<open>student\<close>, in block 5; no other table has blocks.\<close>

definition one_table :: "string \<Rightarrow> nat \<times> nat" where
  "one_table name = (if name = ''student'' then (5, 6) else (0, 0))"

text \<open>A storage layer whose table \<open>student\<close> is in block 300.\<close>

definition student_in_300 :: "string \<Rightarrow> nat \<times> nat" where
  "student_in_300 name = (if name = ''student'' then (300, 301) else (0, 0))"

section \<open>The pool of transaction threads\<close>

text \<open>
  \<open>MAX_ACTIVE_TRANSACTIONS_COUNT\<close> is defined in \<open>transaction.c\<close> itself. The state is
  the slot array \<open>activeThreads\<close>, the two counters, and \<open>newTransactionLockMutex\<close>
  (\<open>True\<close> when locked). \<open>AK_transaction_manager\<close> blocks on that mutex when the pool is
  full; \<open>manager_blocked\<close> says that the manager has entered and sleeps there.

  The manager thread and the workers share \<open>activeTransactionsCount\<close> under no common
  mutex: the manager increments it holding \<open>accessLockMutex\<close> or
  \<open>newTransactionLockMutex\<close>, a worker decrements it in \<open>AK_remove_transaction_thread\<close>
  holding neither. So \<open>activeTransactionsCount++\<close> and \<open>activeTransactionsCount--\<close> are
  each two steps of the interleaving, the load of the counter into a register of the thread
  and the store of the register plus or minus one. \<open>manager_loaded\<close> is the register of
  the manager between its load and its store, and \<open>worker_loaded\<close> holds the registers
  of the workers that have loaded and not yet stored.
\<close>

definition MAX_ACTIVE_TRANSACTIONS_COUNT :: nat where
  "MAX_ACTIVE_TRANSACTIONS_COUNT = 10"

record pool_state =
  activeThreads :: "pthread_t list"
  activeTransactionsCount :: int
  transactionsCount :: int
  newTransactionLockMutex :: bool
  manager_blocked :: bool
  manager_loaded :: "int option"
  worker_loaded :: "(pthread_t \<times> int) list"

text \<open>
  \<open>AK_remove_transaction_thread\<close>, up to the load of \<open>activeTransactionsCount--\<close>. The
  \<open>for\<close> loop returns at the first slot that matches; the status is the one that the
  function returns.
\<close>

definition AK_remove_transaction_thread :: "pthread_t \<Rightarrow> pool_state \<Rightarrow> status \<times> pool_state" where
  "AK_remove_transaction_thread transaction_thread s =
     (case find (\<lambda>i. activeThreads s ! i = transaction_thread)
             [0 ..< MAX_ACTIVE_TRANSACTIONS_COUNT] of
        Some i \<Rightarrow>
          (OK, s\<lparr>activeThreads := (activeThreads s)[i := 0],
                 worker_loaded :=
                   (transaction_thread, activeTransactionsCount s) # worker_loaded s\<rparr>)
      | None \<Rightarrow> (NOT_OK, s))"

text \<open>
  \<open>AK_create_new_transaction_thread\<close>, up to the load of \<open>activeTransactionsCount++\<close>:
  \<open>t1\<close> is the identity that \<open>pthread_create\<close> gives the new thread; the thread is
  created only when a null slot is found.
\<close>

definition AK_create_new_transaction_thread :: "pthread_t \<Rightarrow> pool_state \<Rightarrow> status \<times> pool_state" where
  "AK_create_new_transaction_thread t1 s =
     (case find (\<lambda>i. activeThreads s ! i = 0) [0 ..< MAX_ACTIVE_TRANSACTIONS_COUNT] of
        Some i \<Rightarrow>
          (OK, s\<lparr>activeThreads := (activeThreads s)[i := t1],
                 manager_loaded := Some (activeTransactionsCount s)\<rparr>)
      | None \<Rightarrow> (NOT_OK, s))"

text \<open>
  \<open>AK_transaction_manager\<close> up to the load in \<open>AK_create_new_transaction_thread\<close> or to
  \<open>pthread_mutex_lock\<close> on \<open>newTransactionLockMutex\<close>; from the moment it owns that
  mutex; and its store of the incremented counter, after which it returns.
\<close>

definition AK_transaction_manager_enter :: "pthread_t \<Rightarrow> pool_state \<Rightarrow> pool_state" where
  "AK_transaction_manager_enter t1 s =
     (let s1 = s\<lparr>transactionsCount := transactionsCount s + 1\<rparr> in
      if activeTransactionsCount s1 < int MAX_ACTIVE_TRANSACTIONS_COUNT
      then snd (AK_create_new_transaction_thread t1 s1)
      else s1\<lparr>manager_blocked := True\<rparr>)"

definition AK_transaction_manager_admit :: "pthread_t \<Rightarrow> pool_state \<Rightarrow> pool_state" where
  "AK_transaction_manager_admit t1 s =
     snd (AK_create_new_transaction_thread t1
            (s\<lparr>newTransactionLockMutex := True, manager_blocked := False\<rparr>))"

definition AK_transaction_manager_store :: "pool_state \<Rightarrow> pool_state option" where
  "AK_transaction_manager_store s =
     (case manager_loaded s of
        None \<Rightarrow> None
      | Some loaded \<Rightarrow>
          Some (s\<lparr>activeTransactionsCount := loaded + 1, manager_loaded := None\<rparr>))"

text \<open>
  \<open>AK_on_transaction_end\<close>, which a worker runs on itself when it has finished (the
  notification that all transactions have finished changes nothing here): up to the load
  in \<open>AK_remove_transaction_thread\<close>, or to its end when no slot holds the thread; and
  from the store of the decremented counter to its end.
\<close>

definition AK_on_transaction_end_rest :: "pool_state \<Rightarrow> pool_state" where
  "AK_on_transaction_end_rest s =
     s\<lparr>newTransactionLockMutex := False, transactionsCount := transactionsCount s - 1\<rparr>"

definition AK_on_transaction_end :: "pthread_t \<Rightarrow> pool_state \<Rightarrow> pool_state" where
  "AK_on_transaction_end transaction_thread s =
     (case AK_remove_transaction_thread transaction_thread s of
        (OK, s1) \<Rightarrow> s1
      | (NOT_OK, s1) \<Rightarrow> AK_on_transaction_end_rest s1)"

definition AK_on_transaction_end_store :: "pthread_t \<Rightarrow> pool_state \<Rightarrow> pool_state option" where
  "AK_on_transaction_end_store transaction_thread s =
     (case map_of (worker_loaded s) transaction_thread of
        None \<Rightarrow> None
      | Some loaded \<Rightarrow>
          Some (AK_on_transaction_end_rest
                  (s\<lparr>activeTransactionsCount := loaded - 1,
                     worker_loaded := remove1 (transaction_thread, loaded) (worker_loaded s)\<rparr>)))"

text \<open>
  An execution is a sequence of events: a task is submitted, the blocked manager gets the
  mutex, the manager stores the counter, a worker finishes and comes to its load, a worker
  stores the counter. An event that cannot happen in a state has no successor: the manager
  is one thread, and takes no new task while it is blocked or stands before its store.
\<close>

datatype pool_event =
  Submit pthread_t | Admit pthread_t | Manager_store | Finish pthread_t | Worker_store pthread_t

fun pool_step :: "pool_event \<Rightarrow> pool_state \<Rightarrow> pool_state option" where
  "pool_step (Submit t1) s =
     (if \<not> manager_blocked s \<and> manager_loaded s = None
      then Some (AK_transaction_manager_enter t1 s) else None)"
| "pool_step (Admit t1) s =
     (if manager_blocked s \<and> \<not> newTransactionLockMutex s
      then Some (AK_transaction_manager_admit t1 s) else None)"
| "pool_step Manager_store s = AK_transaction_manager_store s"
| "pool_step (Finish t) s = Some (AK_on_transaction_end t s)"
| "pool_step (Worker_store t) s = AK_on_transaction_end_store t s"

fun pool_run :: "pool_event list \<Rightarrow> pool_state \<Rightarrow> pool_state option" where
  "pool_run [] s = Some s"
| "pool_run (ev # evs) s =
     (case pool_step ev s of None \<Rightarrow> None | Some s' \<Rightarrow> pool_run evs s')"

text \<open>
  The state in which \<open>AK_test_Transaction\<close> submits its first task: the global array
  is zero, and the test has locked \<open>newTransactionLockMutex\<close>.
\<close>

definition initial_pool :: pool_state where
  "initial_pool =
     \<lparr>activeThreads = replicate MAX_ACTIVE_TRANSACTIONS_COUNT 0, activeTransactionsCount = 0,
      transactionsCount = 0, newTransactionLockMutex = True, manager_blocked = False,
      manager_loaded = None, worker_loaded = []\<rparr>"

definition live_entries :: "pool_state \<Rightarrow> nat" where
  "live_entries s = length (filter (\<lambda>t. t \<noteq> 0) (activeThreads s))"

text \<open>
  Twelve tasks. Ten start and fill the pool. Workers 1 and 2 finish at the same time: both
  load the counter (10) before either stores, so both store 9 while eight slots are live.
  Task 11 starts at once, task 12 blocks the manager on the mutex that the workers' ends
  have unlocked, and starts in the second free slot.
\<close>

definition two_workers_end_together :: "pool_event list" where
  "two_workers_end_together =
     [Submit 1, Manager_store, Submit 2, Manager_store, Submit 3, Manager_store,
      Submit 4, Manager_store, Submit 5, Manager_store, Submit 6, Manager_store,
      Submit 7, Manager_store, Submit 8, Manager_store, Submit 9, Manager_store,
      Submit 10, Manager_store,
      Finish 1, Finish 2, Worker_store 1, Worker_store 2,
      Submit 11, Manager_store,
      Submit 12, Admit 12, Manager_store]"

section \<open>The projection rewriter (src/opti/rel_eq_projection.c)\<close>

subsection \<open>Tokens\<close>

text \<open>
  Modelled from the spec: \<open>constants.h\<close> and the declaration of \<open>list_node\<close> are not
  among the sources. A token is tagged operator, operand, attribute list or condition
  (\<open>TYPE_OTHER\<close> stands for every other value of the integer tag), and carries a string.
  The field \<open>size\<close> is the length of the string plus one throughout the code and is not
  kept; the buffers of \<open>MAX_VARCHAR_LENGTH\<close> bytes are taken to be large enough. The
  attribute delimiter is the semicolon and the escape character the backtick, and the
  operator symbols are those of the specification's algebra format (section 6): \<open>p\<close>
  projection, \<open>s\<close> selection, \<open>u\<close> union, \<open>n\<close> intersect, \<open>e\<close> except, \<open>j\<close>
  natural join, \<open>t\<close> theta join, \<open>r\<close> rename; the test in the source file writes
  \<open>p\<close>, \<open>s\<close>, \<open>u\<close> and \<open>t\<close> so. \<open>EXIT_SUCCESS\<close> and \<open>EXIT_FAILURE\<close>
  are those of the C library. The constant \<open>MAX_TOKENS\<close> is the parameter
  \<open>max_tokens\<close> of the functions that use it.
\<close>

datatype node_type = TYPE_OPERATOR | TYPE_OPERAND | TYPE_ATTRIBS | TYPE_CONDITION | TYPE_OTHER

record list_node =
  type :: node_type
  data :: string

definition ATTR_DELIMITER :: char where "ATTR_DELIMITER = CHR '';''"

definition ATTR_ESCAPE :: char where "ATTR_ESCAPE = CHR 0x60"

definition RO_PROJECTION :: char where "RO_PROJECTION = CHR ''p''"

definition RO_SELECTION :: char where "RO_SELECTION = CHR ''s''"

definition RO_UNION :: char where "RO_UNION = CHR ''u''"

definition RO_INTERSECT :: char where "RO_INTERSECT = CHR ''n''"

definition RO_NAT_JOIN :: char where "RO_NAT_JOIN = CHR ''j''"

definition RO_THETA_JOIN :: char where "RO_THETA_JOIN = CHR ''t''"

definition RO_EXCEPT :: char where "RO_EXCEPT = CHR ''e''"

definition RO_RENAME :: char where "RO_RENAME = CHR ''r''"

definition EXIT_SUCCESS :: int where "EXIT_SUCCESS = 0"

definition EXIT_FAILURE :: int where "EXIT_FAILURE = 1"

text \<open>\<open>data[0]\<close>: the first character, or the terminating zero of an empty string.\<close>

definition data0 :: "list_node \<Rightarrow> char" where
  "data0 e = (case data e of [] \<Rightarrow> CHR 0x00 | c # _ \<Rightarrow> c)"

definition is_projection :: "list_node \<Rightarrow> bool" where
  "is_projection e = (data0 e = RO_PROJECTION \<and> type e = TYPE_OPERATOR)"

subsection \<open>Attribute lists\<close>

text \<open>
  The tokens that repeated calls of \<open>strtok_r\<close> with the delimiter return: the maximal
  runs of other characters, in order; \<open>token\<close> is the run read so far.
\<close>

fun tokens_from :: "string \<Rightarrow> string \<Rightarrow> string list" where
  "tokens_from token [] = (if token = [] then [] else [token])"
| "tokens_from token (c # str) =
     (if c = ATTR_DELIMITER then
        (if token = [] then tokens_from [] str else token # tokens_from [] str)
      else tokens_from (token @ [c]) str)"

text \<open>
  The loops that fill an array of \<open>MAX_TOKENS\<close> pointers store a token only while
  \<open>token_id < MAX_TOKENS - 1\<close>.
\<close>

definition strtok_array :: "nat \<Rightarrow> string \<Rightarrow> string list" where
  "strtok_array max_tokens str = take (max_tokens - 1) (tokens_from [] str)"

text \<open>
  The counting loops of \<open>AK_rel_eq_is_subset\<close>: \<open>token_id\<close> goes up by one for every
  pair of equal tokens.
\<close>

primrec count_in_set :: "string list \<Rightarrow> string \<Rightarrow> nat \<Rightarrow> nat" where
  "count_in_set [] token token_id = token_id"
| "count_in_set (s # tokens_set) token token_id =
     count_in_set tokens_set token (if s = token then token_id + 1 else token_id)"

primrec count_subset :: "string list \<Rightarrow> string list \<Rightarrow> nat \<Rightarrow> nat" where
  "count_subset tokens_set [] token_id = token_id"
| "count_subset tokens_set (token # tokens_subset) token_id =
     count_subset tokens_set tokens_subset (count_in_set tokens_set token token_id)"

definition AK_rel_eq_is_subset :: "nat \<Rightarrow> list_node \<Rightarrow> list_node \<Rightarrow> int" where
  "AK_rel_eq_is_subset max_tokens list_elem_set list_elem_subset =
     (let tokens_set = strtok_array max_tokens (data list_elem_set);
          tokens_subset = strtok_array max_tokens (data list_elem_subset);
          len_set = length tokens_set;
          len_subset = length tokens_subset
      in if len_set < len_subset then EXIT_FAILURE
         else if count_subset (sort tokens_set) (sort tokens_subset) 0 \<noteq> len_subset
           then EXIT_FAILURE
         else EXIT_SUCCESS)"

text \<open>
  \<open>AK_rel_eq_can_commute\<close> scans the condition for escape characters; \<open>str\<close> is the
  condition from \<open>next_chr\<close> on. The buffer \<open>temp_cond\<close> is written by \<open>memmove\<close>
  without a terminating zero, so a shorter name keeps the tail of the name before it, and
  \<open>next_chr\<close> moves on by the length of what the buffer then holds.
\<close>

fun can_commute_scan :: "string list \<Rightarrow> string \<Rightarrow> string \<Rightarrow> int" where
  "can_commute_scan tokens temp_cond [] = EXIT_SUCCESS"
| "can_commute_scan tokens temp_cond (c # str) =
     (if c = ATTR_ESCAPE then
        (let n = length (takeWhile (\<lambda>x. x \<noteq> CHR 0x60) str);
             temp_cond' = take n str @ drop n temp_cond
         in if temp_cond' \<in> set tokens
            then can_commute_scan tokens temp_cond' (drop (length temp_cond' + 1) str)
            else EXIT_FAILURE)
      else can_commute_scan tokens temp_cond str)"

definition AK_rel_eq_can_commute :: "nat \<Rightarrow> list_node \<Rightarrow> list_node \<Rightarrow> int" where
  "AK_rel_eq_can_commute max_tokens list_elem_attribs list_elem_conds =
     can_commute_scan (strtok_array max_tokens (data list_elem_attribs)) [] (data list_elem_conds)"

text \<open>
  \<open>AK_rel_eq_projection_attributes\<close>. The table header (\<open>AK_rel_eq_get_attributes\<close>,
  which reads the storage layer) is the parameter \<open>schema\<close>: the attribute names of a
  table, none for a table that does not exist. The result is \<open>None\<close> for the null
  pointer.
\<close>

primrec append_matches :: "string list \<Rightarrow> string \<Rightarrow> string \<Rightarrow> string" where
  "append_matches [] token ret_attributes = ret_attributes"
| "append_matches (list_el # list_attr) token ret_attributes =
     append_matches list_attr token
       (if list_el = token then
          (if ret_attributes \<noteq> [] then ret_attributes @ [ATTR_DELIMITER] @ list_el
           else ret_attributes @ list_el)
        else ret_attributes)"

primrec filter_tokens :: "string list \<Rightarrow> string list \<Rightarrow> string \<Rightarrow> string" where
  "filter_tokens list_attr [] ret_attributes = ret_attributes"
| "filter_tokens list_attr (token # tokens_attribs) ret_attributes =
     filter_tokens list_attr tokens_attribs (append_matches list_attr token ret_attributes)"

definition AK_rel_eq_projection_attributes ::
    "nat \<Rightarrow> (string \<Rightarrow> string list) \<Rightarrow> string \<Rightarrow> string \<Rightarrow> string option" where
  "AK_rel_eq_projection_attributes max_tokens schema attribs name =
     (if schema name = [] then None
      else Some (filter_tokens (schema name) (strtok_array max_tokens attribs) []))"

text \<open>
  \<open>AK_rel_eq_collect_cond_attributes\<close>: \<open>inside\<close> is \<open>attr_end == 0\<close>. Each \<open>strcpy\<close>
  into \<open>attr\<close> is overwritten from its second character on by the next one, so what
  stays is one character per copy. After a closing escape character the loop steps over
  the character that follows it.
\<close>

fun collect_attrs :: "bool \<Rightarrow> string \<Rightarrow> string \<Rightarrow> string" where
  "collect_attrs inside attr [] = attr"
| "collect_attrs True attr (c # str) =
     (if c = ATTR_ESCAPE then
        (case str of [] \<Rightarrow> attr | _ # str' \<Rightarrow> collect_attrs False attr str')
      else collect_attrs True (attr @ [c]) str)"
| "collect_attrs False attr (c # str) =
     (if c = ATTR_ESCAPE then
        (let attr' = (if attr \<noteq> [] then attr @ [ATTR_DELIMITER] else attr)
         in case str of [] \<Rightarrow> attr' | x # str' \<Rightarrow> collect_attrs True (attr' @ [x]) str')
      else collect_attrs False attr str)"

definition AK_rel_eq_collect_cond_attributes :: "list_node \<Rightarrow> string" where
  "AK_rel_eq_collect_cond_attributes list_elem = collect_attrs False [] (data list_elem)"

text \<open>
  \<open>AK_rel_eq_remove_duplicates\<close>: \<open>seen\<close> are the tokens stored so far, so its length is
  \<open>token_id\<close>.
\<close>

primrec remove_duplicates_loop :: "string list \<Rightarrow> string list \<Rightarrow> string \<Rightarrow> string" where
  "remove_duplicates_loop seen [] attr = attr"
| "remove_duplicates_loop seen (token_attr # tokens) attr =
     remove_duplicates_loop (seen @ [token_attr]) tokens
       (if token_attr \<in> set seen then attr
        else (if seen \<noteq> [] then attr @ [ATTR_DELIMITER] else attr) @ token_attr)"

definition AK_rel_eq_remove_duplicates :: "nat \<Rightarrow> string \<Rightarrow> string" where
  "AK_rel_eq_remove_duplicates max_tokens attribs =
     remove_duplicates_loop [] (strtok_array max_tokens attribs) []"

subsection \<open>The rewriter\<close>

text \<open>
  Modelled from the spec: the list functions with the suffixes \<open>_L2\<close> and \<open>_L3\<close> are
  not among the sources; they are taken to do what their namesakes with the suffix \<open>_L\<close>
  in \<open>auxiliary.c\<close> do, as the specification describes the output stream: tokens are
  appended at the tail or inserted beside a token emitted before. The output list \<open>temp\<close>
  is the list of its nodes behind the root. \<open>Ak_Previous_L\<close> of the first node is the
  root node itself, whose \<open>type\<close> and \<open>data\<close> nothing initialises: it is the parameter
  \<open>root\<close>. \<open>Ak_Previous_L\<close> of the root is null.

  The three backward walks below hold the node \<open>temp_elem\<close> and the nodes before it in
  \<open>front\<close>, last first (the empty list when \<open>temp_elem\<close> is the root), and the nodes
  behind it in \<open>back\<close>.
\<close>

definition previous_of :: "list_node \<Rightarrow> list_node list \<Rightarrow> list_node" where
  "previous_of root front = (case front of [] \<Rightarrow> root | temp_elem_prev # _ \<Rightarrow> temp_elem_prev)"

text \<open>Case \<open>RO_PROJECTION\<close>.\<close>

definition projection_step ::
    "nat \<Rightarrow> list_node list \<Rightarrow> list_node \<Rightarrow> list_node option \<Rightarrow> error + list_node list" where
  "projection_step max_tokens temp list_elem list_elem_next =
     (case list_elem_next of
        None \<Rightarrow> Inl Segfault
      | Some next \<Rightarrow>
          if temp \<noteq> [] \<and> type (last temp) = TYPE_ATTRIBS then
            (if AK_rel_eq_is_subset max_tokens next (last temp) = EXIT_FAILURE
             then Inr (temp @ [list_elem, next])
             else Inr temp)
          else Inr (temp @ [list_elem, next]))"

text \<open>Case \<open>RO_SELECTION\<close>: the \<open>while\<close> loop, entered with a non-null \<open>temp_elem\<close>.\<close>

fun selection_walk ::
    "nat \<Rightarrow> list_node \<Rightarrow> list_node \<Rightarrow> list_node \<Rightarrow> list_node list \<Rightarrow> list_node list
      \<Rightarrow> error + list_node list" where
  "selection_walk max_tokens root list_elem next [] back =
     (if type root = TYPE_OPERAND \<or> type root = TYPE_ATTRIBS then Inl Segfault
      else Inr (back @ [list_elem, next]))"
| "selection_walk max_tokens root list_elem next (temp_elem # front) back =
     (if type temp_elem = TYPE_OPERAND \<or> type temp_elem = TYPE_ATTRIBS then
        (let temp_elem_prev = previous_of root front in
         if type temp_elem = TYPE_ATTRIBS
            \<and> AK_rel_eq_can_commute max_tokens temp_elem next = EXIT_FAILURE
            \<and> is_projection temp_elem_prev
         then Inr (rev front @ temp_elem # back @ [list_elem, next])
         else if is_projection temp_elem_prev then
           (case front of
              [] \<Rightarrow> Inl Segfault
            | p # front' \<Rightarrow> Inr (rev front' @ [list_elem, next, p, temp_elem] @ back))
         else selection_walk max_tokens root list_elem next front (temp_elem # back))
      else Inr (rev front @ temp_elem # back @ [list_elem, next]))"

definition selection_step ::
    "nat \<Rightarrow> list_node \<Rightarrow> list_node list \<Rightarrow> list_node \<Rightarrow> list_node option \<Rightarrow> error + list_node list" where
  "selection_step max_tokens root temp list_elem list_elem_next =
     (case list_elem_next of
        None \<Rightarrow> Inl Segfault
      | Some next \<Rightarrow>
          if temp \<noteq> [] then selection_walk max_tokens root list_elem next (rev temp) []
          else Inr (temp @ [list_elem, next]))"

text \<open>
  \<open>tmp\<close> runs from a node to the first operand at or behind it, and the two calls of
  \<open>Ak_InsertAfter_L2\<close> put \<open>new\<close> behind that operand. With no operand the walk
  dereferences the null pointer at the end of the list.
\<close>

fun insert_after_operand :: "list_node list \<Rightarrow> list_node list \<Rightarrow> list_node list option" where
  "insert_after_operand new [] = None"
| "insert_after_operand new (tmp # behind) =
     (if type tmp = TYPE_OPERAND then Some (tmp # new @ behind)
      else map_option (\<lambda>l. tmp # l) (insert_after_operand new behind))"

text \<open>Cases \<open>RO_UNION\<close> and \<open>RO_INTERSECT\<close>: the \<open>while\<close> loop.\<close>

fun union_walk :: "list_node \<Rightarrow> int \<Rightarrow> list_node list \<Rightarrow> list_node list \<Rightarrow> error + list_node list" where
  "union_walk root step [] back =
     (if type root = TYPE_OPERAND \<or> type root = TYPE_ATTRIBS then Inl Segfault else Inr back)"
| "union_walk root step (temp_elem # front) back =
     (if type temp_elem = TYPE_OPERAND \<or> type temp_elem = TYPE_ATTRIBS then
        (let temp_elem_prev = previous_of root front in
         if is_projection temp_elem_prev then
           (if step + 1 > 1 then
              (case insert_after_operand [temp_elem_prev, temp_elem] (temp_elem # back) of
                 None \<Rightarrow> Inl Segfault
               | Some l \<Rightarrow> Inr (rev front @ l))
            else Inr (rev front @ temp_elem # back))
         else union_walk root (step + 1) front (temp_elem # back))
      else Inr (rev front @ temp_elem # back))"

definition union_step :: "list_node \<Rightarrow> list_node list \<Rightarrow> list_node \<Rightarrow> error + list_node list" where
  "union_step root temp list_elem =
     (case (if temp = [] then Inr temp else union_walk root (- 1) (rev temp) []) of
        Inl e \<Rightarrow> Inl e
      | Inr temp' \<Rightarrow> Inr (temp' @ [list_elem]))"

text \<open>
  Case \<open>RO_THETA_JOIN\<close>: what the loop does at a projection found with \<open>step > 1\<close>.
  \<open>temp_elem\<close> is the attribute list of the projection \<open>temp_elem_prev\<close>; the two nodes
  behind it give the table names. \<open>has_attributes\<close> is zero when the condition uses
  attributes of the projection only.
\<close>

definition theta_distribute ::
    "nat \<Rightarrow> (string \<Rightarrow> string list) \<Rightarrow> list_node \<Rightarrow> list_node \<Rightarrow> list_node \<Rightarrow> list_node list
      \<Rightarrow> error + list_node list" where
  "theta_distribute max_tokens schema list_elem_next temp_elem_prev temp_elem back =
     (case back of
        temp_elem_next # second # _ \<Rightarrow>
         (let has_attributes = AK_rel_eq_can_commute max_tokens temp_elem list_elem_next;
              cond_attrs = AK_rel_eq_collect_cond_attributes list_elem_next
          in case (AK_rel_eq_projection_attributes max_tokens schema (data temp_elem)
                     (data temp_elem_next),
                   AK_rel_eq_projection_attributes max_tokens schema (data temp_elem)
                     (data second)) of
               (Some data1, Some data2) \<Rightarrow>
                 if has_attributes = 0 then
                   (case insert_after_operand
                           [temp_elem_prev, \<lparr>type = type temp_elem, data = data2\<rparr>]
                           (temp_elem\<lparr>data := data1\<rparr> # back) of
                      None \<Rightarrow> Inl Segfault
                    | Some l \<Rightarrow> Inr l)
                 else
                   (case AK_rel_eq_projection_attributes max_tokens schema cond_attrs
                           (data temp_elem_next) of
                      None \<Rightarrow> Inl Segfault
                    | Some cond1 \<Rightarrow>
                       (let data1' = AK_rel_eq_remove_duplicates max_tokens
                                       (data1 @ [ATTR_DELIMITER] @ cond1);
                            inserted = temp_elem # temp_elem_prev
                                       # \<lparr>type = type temp_elem, data = data1'\<rparr> # back
                        in case dropWhile (\<lambda>tmp. type tmp \<noteq> TYPE_OPERAND) inserted of
                             tmp # after # _ \<Rightarrow>
                              (case AK_rel_eq_projection_attributes max_tokens schema cond_attrs
                                      (data after) of
                                 None \<Rightarrow> Inl Segfault
                               | Some cond2 \<Rightarrow>
                                  (let data2' = AK_rel_eq_remove_duplicates max_tokens
                                                  (data2 @ [ATTR_DELIMITER] @ cond2)
                                   in case insert_after_operand
                                             [temp_elem_prev,
                                              \<lparr>type = type temp_elem, data = data2'\<rparr>]
                                             inserted of
                                        None \<Rightarrow> Inl Segfault
                                      | Some l \<Rightarrow> Inr l))
                           | _ \<Rightarrow> Inl Segfault))
             | _ \<Rightarrow> Inr (temp_elem # back))
      | _ \<Rightarrow> Inl Segfault)"

fun theta_walk ::
    "nat \<Rightarrow> (string \<Rightarrow> string list) \<Rightarrow> list_node \<Rightarrow> list_node \<Rightarrow> int \<Rightarrow> list_node list
      \<Rightarrow> list_node list \<Rightarrow> error + list_node list" where
  "theta_walk max_tokens schema root list_elem_next step [] back =
     (if type root = TYPE_OPERAND \<or> type root = TYPE_ATTRIBS then Inl Segfault else Inr back)"
| "theta_walk max_tokens schema root list_elem_next step (temp_elem # front) back =
     (if type temp_elem = TYPE_OPERAND \<or> type temp_elem = TYPE_ATTRIBS then
        (let temp_elem_prev = previous_of root front in
         if is_projection temp_elem_prev then
           (if step + 1 > 1 then
              (case theta_distribute max_tokens schema list_elem_next temp_elem_prev
                      temp_elem back of
                 Inl e \<Rightarrow> Inl e
               | Inr l \<Rightarrow> Inr (rev front @ l))
            else Inr (rev front @ temp_elem # back))
         else theta_walk max_tokens schema root list_elem_next (step + 1) front
                (temp_elem # back))
      else Inr (rev front @ temp_elem # back))"

definition theta_step ::
    "nat \<Rightarrow> (string \<Rightarrow> string list) \<Rightarrow> list_node \<Rightarrow> list_node list \<Rightarrow> list_node
      \<Rightarrow> list_node option \<Rightarrow> error + list_node list" where
  "theta_step max_tokens schema root temp list_elem list_elem_next =
     (case list_elem_next of
        None \<Rightarrow> Inl Segfault
      | Some next \<Rightarrow>
         (case (if temp = [] then Inr temp
                else theta_walk max_tokens schema root next (- 1) (rev temp) []) of
            Inl e \<Rightarrow> Inl e
          | Inr temp' \<Rightarrow> Inr (temp' @ [list_elem, next])))"

text \<open>
  One turn of the loop over the input on an operator token: the new output list, and
  whether the token behind the operator is consumed with it.
\<close>

definition operator_step ::
    "nat \<Rightarrow> (string \<Rightarrow> string list) \<Rightarrow> list_node \<Rightarrow> list_node list \<Rightarrow> list_node
      \<Rightarrow> list_node option \<Rightarrow> error + (list_node list \<times> bool)" where
  "operator_step max_tokens schema root temp list_elem list_elem_next =
     (let with_next = (\<lambda>r. case r of Inl e \<Rightarrow> Inl e | Inr temp' \<Rightarrow> Inr (temp', True));
          c = data0 list_elem
      in if c = RO_PROJECTION then
           with_next (projection_step max_tokens temp list_elem list_elem_next)
         else if c = RO_SELECTION then
           with_next (selection_step max_tokens root temp list_elem list_elem_next)
         else if c = RO_UNION \<or> c = RO_INTERSECT then
           (case union_step root temp list_elem of
              Inl e \<Rightarrow> Inl e
            | Inr temp' \<Rightarrow> Inr (temp', False))
         else if c = RO_NAT_JOIN then
           (case list_elem_next of
              None \<Rightarrow> Inl Segfault
            | Some next \<Rightarrow> Inr (temp @ [list_elem, next], True))
         else if c = RO_THETA_JOIN then
           with_next (theta_step max_tokens schema root temp list_elem list_elem_next)
         else if c = RO_EXCEPT then Inr (temp @ [list_elem], False)
         else if c = RO_RENAME then Inr (temp @ [list_elem], False)
         else Inr (temp, False))"

fun rewrite_loop ::
    "nat \<Rightarrow> (string \<Rightarrow> string list) \<Rightarrow> list_node \<Rightarrow> list_node list \<Rightarrow> list_node list
      \<Rightarrow> error + list_node list" where
  "rewrite_loop max_tokens schema root temp [] = Inr temp"
| "rewrite_loop max_tokens schema root temp (list_elem # rest) =
     (case type list_elem of
        TYPE_OPERATOR \<Rightarrow>
         (case operator_step max_tokens schema root temp list_elem
                 (case rest of [] \<Rightarrow> None | next # _ \<Rightarrow> Some next) of
            Inl e \<Rightarrow> Inl e
          | Inr (temp', consumed) \<Rightarrow>
              if consumed then rewrite_loop max_tokens schema root temp' (tl rest)
              else rewrite_loop max_tokens schema root temp' rest)
      | TYPE_OPERAND \<Rightarrow>
          rewrite_loop max_tokens schema root
            (temp @ [\<lparr>type = TYPE_OPERAND, data = data list_elem\<rparr>]) rest
      | _ \<Rightarrow> rewrite_loop max_tokens schema root temp rest)"

definition AK_rel_eq_projection ::
    "nat \<Rightarrow> (string \<Rightarrow> string list) \<Rightarrow> list_node \<Rightarrow> list_node list \<Rightarrow> error + list_node list" where
  "AK_rel_eq_projection max_tokens schema root list_rel_eq =
     rewrite_loop max_tokens schema root [] list_rel_eq"

text \<open>Writing streams down.\<close>

definition operator :: "string \<Rightarrow> list_node" where
  "operator s = \<lparr>type = TYPE_OPERATOR, data = s\<rparr>"

definition operand :: "string \<Rightarrow> list_node" where
  "operand s = \<lparr>type = TYPE_OPERAND, data = s\<rparr>"

definition attribs :: "string \<Rightarrow> list_node" where
  "attribs s = \<lparr>type = TYPE_ATTRIBS, data = s\<rparr>"

definition condition :: "string \<Rightarrow> list_node" where
  "condition s = \<lparr>type = TYPE_CONDITION, data = s\<rparr>"

definition escaped :: "string \<Rightarrow> string" where
  "escaped name = [ATTR_ESCAPE] @ name @ [ATTR_ESCAPE]"

definition blank_root :: list_node where
  "blank_root = \<lparr>type = TYPE_OTHER, data = []\<rparr>"

subsection \<open>Attribute sets and streams that the properties speak of\<close>

text \<open>The attribute list of a token: the names between the delimiters.\<close>

definition attribute_list :: "list_node \<Rightarrow> string list" where
  "attribute_list e = tokens_from [] (data e)"

text \<open>A storage layer without tables, for streams whose rewriting reads no table header.\<close>

definition no_tables :: "string \<Rightarrow> string list" where
  "no_tables name = []"

text \<open>
  Streams on which the loop meets no selection, union, intersect or theta-join operator,
  and on which every projection and natural join is followed by its argument.
\<close>

fun plain_stream :: "list_node list \<Rightarrow> bool" where
  "plain_stream [] = True"
| "plain_stream (list_elem # rest) =
     (if type list_elem = TYPE_OPERATOR then
        (if data0 list_elem = RO_PROJECTION \<or> data0 list_elem = RO_NAT_JOIN
         then rest \<noteq> [] \<and> plain_stream (tl rest)
         else data0 list_elem \<noteq> RO_SELECTION \<and> data0 list_elem \<noteq> RO_UNION
              \<and> data0 list_elem \<noteq> RO_INTERSECT \<and> data0 list_elem \<noteq> RO_THETA_JOIN
              \<and> plain_stream rest)
      else plain_stream rest)"

section \<open>Properties: the transaction lock manager\<close>

lemmas lock_run_simps =
  shared_then_exclusive_def shared_exclusive_shared_enqueued_def acquired_and_released_def
  with_state_def other_acquires_def enqueues_def
  AK_acquire_lock_def AK_create_lock_def AK_add_lock_def AK_add_hash_entry_list_def
  AK_search_empty_link_for_hook_def AK_search_existing_link_for_hook_def
  AK_memory_block_hash_def AK_isLock_waiting_def malloc_def set_bucket_def write_elem_def
  set_waiting_def empty_table_def queue_after_def bucket_after_def queue_of_def
  AK_delete_lock_entry_list_def AK_search_lock_entry_list_by_key_def delete_entries.simps
  Let_def

subsection \<open>The oracle\<close>

text \<open>
  C3, as the specification states it: the oracle grants exactly when the waiter is the
  head, or the head is granted-shared and the waiter wants shared, or the head is
  granted-exclusive and of the waiter's transaction. This fails on the code, which never
  reads the head's waiting flag: on \<open>woken_record\<close> the head still waits and the oracle
  passes the shared waiter behind it.
\<close>

theorem oracle_ignores_head_flag:
  "AK_isLock_waiting woken_record SHARED_LOCK 3 4 = Inr (PASS_LOCK_QUEUE, woken_record)
   \<and> \<not> spec_oracle_grants woken_record SHARED_LOCK 3 4"
  by (simp add: AK_isLock_waiting_def woken_record_def spec_oracle_grants_def granted_def)

text \<open>
  C3, amended: for every record with a non-null head and every waiter, the oracle grants
  exactly when the waiter is the head (and then the record's mode becomes the waiter's),
  or the head's requested mode is shared and the waiter wants shared, or the head's
  requested mode is exclusive and the head belongs to the waiter's transaction, whether
  or not the head itself has been granted; in all other cases it answers wait and leaves
  the record as it is.
\<close>

theorem oracle_grants_by_head_mode:
  assumes "DLLLocksHead lockHolder = tmp # rest"
  shows "AK_isLock_waiting lockHolder mode transactionId lock =
     Inr (if ptr tmp = lock \<or> head_admits tmp mode transactionId
          then PASS_LOCK_QUEUE else WAIT_FOR_UNLOCK,
          if ptr tmp = lock then lockHolder\<lparr>holder_lock_type := mode\<rparr> else lockHolder)"
proof (cases "ptr tmp = lock")
  case True
  with assms show ?thesis by (simp add: AK_isLock_waiting_def)
next
  case False
  with assms show ?thesis
    by (cases "lock_type tmp"; cases mode) (simp_all add: AK_isLock_waiting_def head_admits_def)
qed

theorem oracle_grants_by_head_mode_witness:
  "DLLLocksHead woken_record =
      \<lparr>ptr = 3, TransactionId = 2, lock_type = SHARED_LOCK, isWaiting = WAIT_FOR_UNLOCK\<rparr>
      # [\<lparr>ptr = 4, TransactionId = 3, lock_type = SHARED_LOCK, isWaiting = WAIT_FOR_UNLOCK\<rparr>]
   \<and> AK_isLock_waiting woken_record EXCLUSIVE_LOCK 3 4 = Inr (WAIT_FOR_UNLOCK, woken_record)"
proof -
  have h: "DLLLocksHead woken_record =
      \<lparr>ptr = 3, TransactionId = 2, lock_type = SHARED_LOCK, isWaiting = WAIT_FOR_UNLOCK\<rparr>
      # [\<lparr>ptr = 4, TransactionId = 3, lock_type = SHARED_LOCK, isWaiting = WAIT_FOR_UNLOCK\<rparr>]"
    by (simp add: woken_record_def)
  show ?thesis
    using h oracle_grants_by_head_mode [OF h, of EXCLUSIVE_LOCK 3 4]
    by (simp add: head_admits_def)
qed

subsection \<open>Mutual exclusion\<close>

text \<open>
  C1 states that no transaction holds a granted exclusive lock on a block while another
  transaction holds a granted lock on it. The code does not keep this. In scenario L3,
  transaction 3 asks for block 300 shared while transaction 2 waits for it exclusive
  behind the shared holder 1: the oracle looks at the head only and passes 3. When 1
  releases, 2 is the head and passes too: the exclusive lock of 2 and the shared lock
  of 3 are granted together.
\<close>

theorem exclusive_granted_beside_shared:
  "queue_after 4096 300
     (shared_then_exclusive
        [other_acquires 4096 300 SHARED_LOCK 3 [], AK_release_locks 4096 [300] 1]) =
     Inr [\<lparr>ptr = 3, TransactionId = 2, lock_type = EXCLUSIVE_LOCK, isWaiting = PASS_LOCK_QUEUE\<rparr>,
          \<lparr>ptr = 4, TransactionId = 3, lock_type = SHARED_LOCK, isWaiting = PASS_LOCK_QUEUE\<rparr>]
   \<and> \<not> mutual_exclusion
        [\<lparr>ptr = 3, TransactionId = 2, lock_type = EXCLUSIVE_LOCK, isWaiting = PASS_LOCK_QUEUE\<rparr>,
         \<lparr>ptr = 4, TransactionId = 3, lock_type = SHARED_LOCK, isWaiting = PASS_LOCK_QUEUE\<rparr>]"
  by (simp add: lock_run_simps mutual_exclusion_def granted_def)

subsection \<open>Order of grants\<close>

text \<open>
  C2, as the specification states it: a waiter is granted only when every waiter enqueued
  before it has been granted, unless both are shared; in scenario L3 transaction 3 waits
  behind transaction 2. This fails on the code: when transaction 3 has asked, its node is
  granted and the exclusive node of transaction 2, enqueued before it, still waits.
\<close>

theorem shared_arrival_overtakes_exclusive_waiter:
  "queue_after 4096 300 shared_exclusive_shared_enqueued =
     Inr [\<lparr>ptr = 2, TransactionId = 1, lock_type = SHARED_LOCK, isWaiting = PASS_LOCK_QUEUE\<rparr>,
          \<lparr>ptr = 3, TransactionId = 2, lock_type = EXCLUSIVE_LOCK, isWaiting = WAIT_FOR_UNLOCK\<rparr>,
          \<lparr>ptr = 4, TransactionId = 3, lock_type = SHARED_LOCK, isWaiting = PASS_LOCK_QUEUE\<rparr>]
   \<and> \<not> fifo_respected
        [\<lparr>ptr = 2, TransactionId = 1, lock_type = SHARED_LOCK, isWaiting = PASS_LOCK_QUEUE\<rparr>,
         \<lparr>ptr = 3, TransactionId = 2, lock_type = EXCLUSIVE_LOCK, isWaiting = WAIT_FOR_UNLOCK\<rparr>,
         \<lparr>ptr = 4, TransactionId = 3, lock_type = SHARED_LOCK, isWaiting = PASS_LOCK_QUEUE\<rparr>]"
  by (simp add: lock_run_simps overtakes_def granted_def)

lemma malloc_serves:
  "0 < heap_left s \<Longrightarrow>
     malloc s = (Some (heap_next s), s\<lparr>heap_next := heap_next s + 1, heap_left := heap_left s - 1\<rparr>)"
  by (simp add: malloc_def)

text \<open>
  C2, amended: a waiter enqueued behind others is granted at once exactly when the head
  of the queue admits it, that is when the head's requested mode is shared and the waiter
  wants shared, or the head's requested mode is exclusive and the head belongs to the
  waiter's transaction. The waiters between the head and the new node are not consulted,
  so a shared arrival is granted past an exclusive waiter.
\<close>

theorem enqueue_granted_by_head_alone:
  assumes "DLLLocksHead HashList = tmp # rest" and "0 < heap_left s" and "ptr tmp \<noteq> heap_next s"
  shows "\<exists>s'. AK_add_lock keys HashList mode transactionId s =
     Inr (heap_next s,
          if head_admits tmp mode transactionId then PASS_LOCK_QUEUE else WAIT_FOR_UNLOCK, s')"
proof -
  let ?lock = "\<lparr>ptr = heap_next s, TransactionId = transactionId, lock_type = mode,
                 isWaiting = WAIT_FOR_UNLOCK\<rparr>"
  let ?linked = "HashList\<lparr>DLLLocksHead := DLLLocksHead HashList @ [?lock]\<rparr>"
  have head: "DLLLocksHead ?linked = tmp # (rest @ [?lock])"
    using assms(1) by simp
  have "AK_isLock_waiting ?linked mode transactionId (heap_next s) =
      Inr (if head_admits tmp mode transactionId then PASS_LOCK_QUEUE else WAIT_FOR_UNLOCK, ?linked)"
    using assms(3) head
    by (cases "lock_type tmp"; cases mode) (simp_all add: AK_isLock_waiting_def head_admits_def)
  then show ?thesis
    using assms(1,2) by (simp add: AK_add_lock_def malloc_serves Let_def)
qed

theorem enqueue_granted_by_head_alone_witness:
  "DLLLocksHead two_queued =
      \<lparr>ptr = 2, TransactionId = 1, lock_type = SHARED_LOCK, isWaiting = PASS_LOCK_QUEUE\<rparr>
      # [\<lparr>ptr = 3, TransactionId = 2, lock_type = EXCLUSIVE_LOCK, isWaiting = WAIT_FOR_UNLOCK\<rparr>]
   \<and> 0 < heap_left two_queued_state
   \<and> ptr \<lparr>ptr = 2, TransactionId = 1, lock_type = SHARED_LOCK, isWaiting = PASS_LOCK_QUEUE\<rparr>
       \<noteq> heap_next two_queued_state
   \<and> (\<exists>s'. AK_add_lock 4096 two_queued SHARED_LOCK 3 two_queued_state =
         Inr (4, PASS_LOCK_QUEUE, s'))"
proof -
  have h1: "DLLLocksHead two_queued =
      \<lparr>ptr = 2, TransactionId = 1, lock_type = SHARED_LOCK, isWaiting = PASS_LOCK_QUEUE\<rparr>
      # [\<lparr>ptr = 3, TransactionId = 2, lock_type = EXCLUSIVE_LOCK, isWaiting = WAIT_FOR_UNLOCK\<rparr>]"
    by (simp add: two_queued_def)
  have h2: "0 < heap_left two_queued_state" by (simp add: two_queued_state_def)
  have h3: "ptr \<lparr>ptr = 2, TransactionId = 1, lock_type = SHARED_LOCK, isWaiting = PASS_LOCK_QUEUE\<rparr>
       \<noteq> heap_next two_queued_state"
    by (simp add: two_queued_state_def)
  have "\<exists>s'. AK_add_lock 4096 two_queued SHARED_LOCK 3 two_queued_state =
         Inr (4, PASS_LOCK_QUEUE, s')"
    using enqueue_granted_by_head_alone [OF h1 h2 h3, of 4096 SHARED_LOCK 3]
    by (simp add: head_admits_def two_queued_state_def)
  with h1 h2 h3 show ?thesis by blast
qed

subsection \<open>Records and their queues\<close>

text \<open>
  C4, as the specification states it: every record in a bucket has a non-empty queue, and
  release removes the record of a block when it removes its last waiter. This fails on the
  code: \<open>AK_release_locks\<close> never calls \<open>AK_delete_hash_entry_list\<close>. After transaction 1
  acquires block 300 and releases it, the record is in its bucket with a null queue head.
\<close>

theorem release_leaves_empty_record:
  "bucket_after 4096 300 acquired_and_released =
     Inr [\<lparr>address = 300, holder_lock_type = SHARED_LOCK, DLLLocksHead = []\<rparr>]
   \<and> \<not> records_have_waiters
        [\<lparr>address = 300, holder_lock_type = SHARED_LOCK, DLLLocksHead = []\<rparr>]"
  by (simp add: lock_run_simps records_have_waiters_def)

lemma store_elem_addresses: "map address (store_elem new b) = map address b"
  by (induction b) auto

lemma write_elem_addresses:
  "map address (LockTable (write_elem keys new s) h) = map address (LockTable s h)"
  by (simp add: write_elem_def set_bucket_def Let_def store_elem_addresses)

lemma delete_lock_entry_addresses:
  "AK_delete_lock_entry_list keys a tid s = Inr (r, s') \<Longrightarrow>
     map address (LockTable s' h) = map address (LockTable s h)"
  by (auto simp: AK_delete_lock_entry_list_def write_elem_addresses split: option.splits)

text \<open>
  C4, amended: release(blocks, transaction_id) removes waiters, never a resource record.
  Whenever it returns, every bucket holds the records of the same blocks, in the same
  order, as before the call; a record whose last waiter it removed stays in its bucket
  with an empty queue.
\<close>

theorem release_keeps_every_record:
  "AK_release_locks keys addresses transactionId s = Inr s' \<Longrightarrow>
     map address (LockTable s' h) = map address (LockTable s h)"
proof (induction addresses arbitrary: s)
  case Nil
  then show ?case by simp
next
  case (Cons adresa addressesTmp)
  from Cons.prems obtain r s1 where
    d: "AK_delete_lock_entry_list keys adresa transactionId s = Inr (r, s1)" and
    rest: "AK_release_locks keys addressesTmp transactionId s1 = Inr s'"
    by (auto split: sum.splits option.splits)
  from Cons.IH [OF rest] delete_lock_entry_addresses [OF d] show ?case by simp
qed

theorem release_keeps_every_record_witness:
  "AK_release_locks 4096 [300] 1 one_holder_state = Inr released_state
   \<and> map address (LockTable released_state 300) = map address (LockTable one_holder_state 300)"
proof -
  have h: "AK_release_locks 4096 [300] 1 one_holder_state = Inr released_state"
    by (simp add: one_holder_state_def released_state_def lock_run_simps)
  from h release_keeps_every_record [OF h, of 300] show ?thesis by simp
qed

section \<open>Properties: the transaction worker\<close>

subsection \<open>Abort and the locks taken so far\<close>

text \<open>
  C5 states that every lock the transaction acquired before an abort, also for earlier
  commands, has been released when \<open>AK_execute_commands\<close> returns ABORT. The code
  returns at a failed address lookup without a call of \<open>AK_release_locks\<close>. Thread 7
  runs a select on \<open>student\<close> (block 5) and then a delete on a table without blocks:
  the outcome is ABORT, and the shared lock of 7 on block 5 is still granted in the table.
\<close>

theorem abort_on_lookup_keeps_lock:
  "outcome_and_queue 4096 5
     (AK_execute_commands 4096 one_table 7
        [\<lparr>tblName = ''student'', id_command = SELECT\<rparr>,
         \<lparr>tblName = ''professor'', id_command = DELETE\<rparr>] [] (empty_table 16)) =
     Inr (ABORT,
          [\<lparr>ptr = 2, TransactionId = 7, lock_type = SHARED_LOCK, isWaiting = PASS_LOCK_QUEUE\<rparr>])"
  by (simp add: AK_execute_commands_def outcome_and_queue_def one_table_def
      AK_get_memory_blocks_def lock_run_simps)

subsection \<open>What acquire returns\<close>

text \<open>
  C10, as the specification states it: \<open>AK_acquire_lock\<close> never reports failure, so the
  branch \<open>status == NOT_OK\<close> of \<open>AK_execute_commands\<close> is unreachable. The branch is
  reached without a failure of acquire: \<open>status\<close> starts as 0, which is NOT_OK, and a
  command whose id is none of the four sends the \<open>switch\<close> to \<open>default\<close>, which
  leaves it so. Thread 7 runs such a command on \<open>student\<close> (block 300, held shared by
  transaction 1): the loop takes the branch at the first block and the outcome is ABORT.
\<close>

theorem unknown_command_takes_abort_branch:
  "acquire_blocks 4096 OTHER_COMMAND 7 [300] [300] NOT_OK [] one_holder_state =
     Inr (Aborted one_holder_state)
   \<and> outcome_and_queue 4096 300
       (AK_execute_commands 4096 student_in_300 7
          [\<lparr>tblName = ''student'', id_command = OTHER_COMMAND\<rparr>] [] one_holder_state) =
     Inr (ABORT,
          [\<lparr>ptr = 2, TransactionId = 1, lock_type = SHARED_LOCK, isWaiting = PASS_LOCK_QUEUE\<rparr>])"
  by (simp add: AK_execute_commands_def outcome_and_queue_def student_in_300_def
      AK_get_memory_blocks_def one_holder_state_def lock_run_simps)

lemma acquire_returns_OK:
  "AK_acquire_lock keys a mode tid env s = Inr (r, env', s') \<Longrightarrow> r = OK"
  by (auto simp: AK_acquire_lock_def split: sum.splits prod.splits)

lemma no_memory_add_lock: "heap_left s = 0 \<Longrightarrow> AK_add_lock keys e mode tid s = Inl Segfault"
  by (simp add: AK_add_lock_def malloc_def)

lemma no_memory_add_hash:
  "heap_left s = 0 \<Longrightarrow> AK_search_existing_link_for_hook keys s a = None \<Longrightarrow>
     AK_add_hash_entry_list keys a mode s = Inl Segfault"
  by (simp add: AK_add_hash_entry_list_def AK_search_empty_link_for_hook_def malloc_def Let_def)

lemma no_memory_acquire:
  "heap_left s = 0 \<Longrightarrow> AK_acquire_lock keys a mode tid env s = Inl Segfault"
  by (cases "AK_search_existing_link_for_hook keys s a")
     (simp_all add: AK_acquire_lock_def AK_create_lock_def no_memory_add_lock no_memory_add_hash)

lemma acquire_blocks_never_aborts:
  "kind \<noteq> OTHER_COMMAND \<Longrightarrow>
     acquire_blocks keys kind self addresses remaining status env s \<noteq> Inr (Aborted s'')"
proof (induction remaining arbitrary: status env s)
  case Nil
  then show ?case by simp
next
  case (Cons adresa remaining)
  show ?case
  proof (cases "AK_acquire_lock keys adresa
      (if kind = SELECT then SHARED_LOCK else EXCLUSIVE_LOCK) self env s")
    case (Inl e)
    with Cons.prems show ?thesis by (cases kind) simp_all
  next
    case (Inr r)
    obtain st env' s' where r: "r = (st, env', s')" by (cases r) auto
    with Inr acquire_returns_OK have "st = OK" by blast
    with Inr r Cons.prems Cons.IH [OF Cons.prems, of OK env' s'] show ?thesis
      by (cases kind) simp_all
  qed
qed

text \<open>
  C10, amended: whatever the block, the mode, the transaction and the schedule of the
  other threads, a call of \<open>AK_acquire_lock\<close> that returns, returns OK. With no memory
  left for the record or for the waiter the call does not return NOT_OK either: it crashes
  in \<open>memset\<close>. So for a command of one of the four kinds select, update, delete and
  insert, the loop over its blocks never takes the branch \<open>status == NOT_OK\<close> of
  \<open>AK_execute_commands\<close>.
\<close>

theorem acquire_never_reports_failure:
  "(AK_acquire_lock keys memoryAddress mode transactionId env s = Inr (r, env', s') \<longrightarrow> r = OK)
   \<and> (heap_left s = 0 \<longrightarrow>
        AK_acquire_lock keys memoryAddress mode transactionId env s = Inl Segfault)
   \<and> (kind \<noteq> OTHER_COMMAND \<longrightarrow>
        acquire_blocks keys kind self addresses remaining status env s \<noteq> Inr (Aborted s''))"
proof (intro conjI impI)
  assume "AK_acquire_lock keys memoryAddress mode transactionId env s = Inr (r, env', s')"
  then show "r = OK" by (rule acquire_returns_OK)
next
  assume "heap_left s = 0"
  then show "AK_acquire_lock keys memoryAddress mode transactionId env s = Inl Segfault"
    by (rule no_memory_acquire)
next
  assume "kind \<noteq> OTHER_COMMAND"
  then show "acquire_blocks keys kind self addresses remaining status env s \<noteq> Inr (Aborted s'')"
    by (rule acquire_blocks_never_aborts)
qed

theorem acquire_never_reports_failure_witness:
  "AK_acquire_lock 4096 300 SHARED_LOCK 1 [] (empty_table 16) = Inr (OK, [], one_holder_state)
   \<and> heap_left (empty_table 0) = 0
   \<and> AK_acquire_lock 4096 300 SHARED_LOCK 1 [] (empty_table 0) = Inl Segfault
   \<and> SELECT \<noteq> OTHER_COMMAND
   \<and> acquire_blocks 4096 SELECT 1 [300] [300] NOT_OK [] (empty_table 16)
       \<noteq> Inr (Aborted (empty_table 16))"
proof -
  have a: "AK_acquire_lock 4096 300 SHARED_LOCK 1 [] (empty_table 16) = Inr (OK, [], one_holder_state)"
    by (simp add: one_holder_state_def lock_run_simps numeral_2_eq_2 [symmetric])
  have b: "heap_left (empty_table 0) = 0" by (simp add: empty_table_def)
  have c: "SELECT \<noteq> OTHER_COMMAND" by simp
  from acquire_never_reports_failure
    [of 4096 300 SHARED_LOCK 1 "[]" "empty_table 0" OK "[]" one_holder_state SELECT 1
        "[300]" "[300]" NOT_OK "empty_table 16"] b
  have d: "AK_acquire_lock 4096 300 SHARED_LOCK 1 [] (empty_table 0) = Inl Segfault"
    by blast
  from acquire_never_reports_failure
    [of 4096 300 SHARED_LOCK 1 "[]" "empty_table 16" OK "[]" one_holder_state SELECT 1
        "[300]" "[300]" NOT_OK "empty_table 16"] c
  have e: "acquire_blocks 4096 SELECT 1 [300] [300] NOT_OK [] (empty_table 16)
       \<noteq> Inr (Aborted (empty_table 16))"
    by blast
  from a b c d e show ?thesis by blast
qed

section \<open>Properties: the pool of transaction threads\<close>

subsection \<open>Bounded concurrency\<close>

text \<open>The slot array keeps its ten slots, so no execution has more than ten live entries.\<close>

lemma pool_step_slots:
  "pool_step ev s = Some s' \<Longrightarrow> length (activeThreads s') = length (activeThreads s)"
  by (cases ev)
     (auto simp: AK_transaction_manager_enter_def AK_transaction_manager_admit_def
        AK_transaction_manager_store_def AK_on_transaction_end_def
        AK_on_transaction_end_store_def AK_on_transaction_end_rest_def
        AK_create_new_transaction_thread_def AK_remove_transaction_thread_def Let_def
        split: if_splits option.splits)

lemma pool_run_slots:
  "pool_run evs s = Some s' \<Longrightarrow> length (activeThreads s') = length (activeThreads s)"
proof (induction evs arbitrary: s)
  case Nil
  then show ?case by simp
next
  case (Cons ev evs)
  from Cons.prems obtain s1 where
    s1: "pool_step ev s = Some s1" and r: "pool_run evs s1 = Some s'"
    by (auto split: option.splits)
  from Cons.IH [OF r] pool_step_slots [OF s1] show ?case by simp
qed

lemma live_entries_at_most_ten:
  "pool_run evs initial_pool = Some s \<Longrightarrow> live_entries s \<le> MAX_ACTIVE_TRANSACTIONS_COUNT"
proof -
  assume "pool_run evs initial_pool = Some s"
  from pool_run_slots [OF this]
  have "length (activeThreads s) = MAX_ACTIVE_TRANSACTIONS_COUNT"
    by (simp add: initial_pool_def)
  then show ?thesis
    unfolding live_entries_def by (metis length_filter_le)
qed

text \<open>
  C6 states that at every point of every execution the slot array holds at most 10 live
  entries and the active count is at most 10. The slot array does; the count does not.
  A worker decrements \<open>activeTransactionsCount\<close> under no mutex, so when two workers end
  together one decrement is lost, and the manager, which admits a task while the count is
  below 10 or as soon as a worker's end has unlocked \<open>newTransactionLockMutex\<close>, brings
  the count to 11 with ten live slots.
\<close>

theorem active_count_exceeds_ten:
  "map_option (\<lambda>s. (activeThreads s, live_entries s, activeTransactionsCount s))
     (pool_run two_workers_end_together initial_pool) =
     Some ([11, 12, 3, 4, 5, 6, 7, 8, 9, 10], 10, 11)"
  by code_simp

section \<open>Properties: the projection rewriter\<close>

subsection \<open>The subset test\<close>

text \<open>
  C8, as the specification states it: for all attribute lists A and B, duplicates
  permitted on either side, the subset test succeeds exactly when every element of B
  occurs in A, and succeeds both ways only for lists that are equal as sets. This fails on
  the code, which counts the pairs of equal tokens and compares the count with the length
  of B: with A = a;a and B = a the count is 2 and the test fails, and with a;a;b and
  a;b;c it succeeds both ways.
\<close>

theorem subset_test_miscounts_duplicates:
  "AK_rel_eq_is_subset 255 (attribs ''a;a'') (attribs ''a'') = EXIT_FAILURE
   \<and> set (attribute_list (attribs ''a'')) \<subseteq> set (attribute_list (attribs ''a;a''))
   \<and> AK_rel_eq_is_subset 255 (attribs ''a;a;b'') (attribs ''a;b;c'') = EXIT_SUCCESS
   \<and> AK_rel_eq_is_subset 255 (attribs ''a;b;c'') (attribs ''a;a;b'') = EXIT_SUCCESS
   \<and> set (attribute_list (attribs ''a;a;b'')) \<noteq> set (attribute_list (attribs ''a;b;c''))"
  by code_simp

lemma count_in_set_eq: "count_in_set S t n = n + count_list S t"
  by (induction S arbitrary: n) auto

lemma count_subset_eq: "count_subset S B n = n + sum_list (map (count_list S) B)"
  by (induction B arbitrary: n) (auto simp: count_in_set_eq)

lemma count_list_distinct: "distinct S \<Longrightarrow> count_list S t = (if t \<in> set S then 1 else 0)"
  by (induction S) auto

lemma sum_count_distinct:
  "distinct S \<Longrightarrow> sum_list (map (count_list S) B) = length (filter (\<lambda>t. t \<in> set S) B)"
  by (induction B) (auto simp: count_list_distinct)

lemma filter_length_all: "length (filter P xs) = length xs \<longleftrightarrow> (\<forall>x\<in>set xs. P x)"
proof (induction xs)
  case Nil
  then show ?case by simp
next
  case (Cons x xs)
  show ?case
  proof (cases "P x")
    case True
    with Cons show ?thesis by simp
  next
    case False
    have "length (filter P xs) < Suc (length xs)" by (simp add: le_imp_less_Suc)
    with False show ?thesis by auto
  qed
qed

lemma count_subset_distinct:
  assumes "distinct S"
  shows "count_subset (sort S) (sort B) 0 = length B \<longleftrightarrow> set B \<subseteq> set S"
proof -
  have "count_subset (sort S) (sort B) 0 = length (filter (\<lambda>t. t \<in> set (sort S)) (sort B))"
    using assms by (simp add: count_subset_eq sum_count_distinct)
  moreover have "length (filter (\<lambda>t. t \<in> set (sort S)) (sort B)) = length (sort B)
      \<longleftrightarrow> (\<forall>x\<in>set (sort B). x \<in> set (sort S))"
    by (rule filter_length_all)
  ultimately show ?thesis by auto
qed

lemma is_subset_distinct:
  assumes "distinct (attribute_list A)" and "distinct (attribute_list B)"
    and "length (attribute_list A) < max_tokens" and "length (attribute_list B) < max_tokens"
  shows "AK_rel_eq_is_subset max_tokens A B = EXIT_SUCCESS
     \<longleftrightarrow> set (attribute_list B) \<subseteq> set (attribute_list A)"
proof -
  have tA: "strtok_array max_tokens (data A) = attribute_list A"
    using assms(3) by (simp add: strtok_array_def attribute_list_def)
  have tB: "strtok_array max_tokens (data B) = attribute_list B"
    using assms(4) by (simp add: strtok_array_def attribute_list_def)
  have len: "set (attribute_list B) \<subseteq> set (attribute_list A)
      \<Longrightarrow> length (attribute_list B) \<le> length (attribute_list A)"
    using assms(1,2) by (metis card_mono distinct_card List.finite_set)
  show ?thesis
    using count_subset_distinct [OF assms(1), of "attribute_list B"] len
    by (auto simp: AK_rel_eq_is_subset_def tA tB Let_def EXIT_SUCCESS_def EXIT_FAILURE_def)
qed

text \<open>
  C8, amended: for all attribute lists A and B without duplicates and with fewer than
  \<open>MAX_TOKENS\<close> names each, the subset test returns success if and only if every
  element of B occurs in A; it succeeds both ways exactly when A and B are equal as sets.
\<close>

theorem subset_test_on_duplicate_free_lists:
  assumes "distinct (attribute_list A)" and "distinct (attribute_list B)"
    and "length (attribute_list A) < max_tokens" and "length (attribute_list B) < max_tokens"
  shows "(AK_rel_eq_is_subset max_tokens A B = EXIT_SUCCESS
          \<longleftrightarrow> set (attribute_list B) \<subseteq> set (attribute_list A))
     \<and> (AK_rel_eq_is_subset max_tokens A B = EXIT_SUCCESS
          \<and> AK_rel_eq_is_subset max_tokens B A = EXIT_SUCCESS
          \<longleftrightarrow> set (attribute_list A) = set (attribute_list B))"
  using is_subset_distinct [OF assms] is_subset_distinct [OF assms(2,1,4,3)] by auto

lemma tokens_abc: "attribute_list (attribs ''a;b;c'') = [''a'', ''b'', ''c'']"
  by code_simp

lemma tokens_ab: "attribute_list (attribs ''a;b'') = [''a'', ''b'']"
  by code_simp

theorem subset_test_on_duplicate_free_lists_witness:
  "distinct (attribute_list (attribs ''a;b;c'')) \<and> distinct (attribute_list (attribs ''a;b''))
   \<and> length (attribute_list (attribs ''a;b;c'')) < 255
   \<and> length (attribute_list (attribs ''a;b'')) < 255
   \<and> AK_rel_eq_is_subset 255 (attribs ''a;b;c'') (attribs ''a;b'') = EXIT_SUCCESS"
proof -
  have h1: "distinct (attribute_list (attribs ''a;b;c''))" by (simp add: tokens_abc)
  have h2: "distinct (attribute_list (attribs ''a;b''))" by (simp add: tokens_ab)
  have h3: "length (attribute_list (attribs ''a;b;c'')) < 255" by (simp add: tokens_abc)
  have h4: "length (attribute_list (attribs ''a;b'')) < 255" by (simp add: tokens_ab)
  from subset_test_on_duplicate_free_lists [OF h1 h2 h3 h4] h1 h2 h3 h4
  show ?thesis by (simp add: tokens_abc tokens_ab)
qed

subsection \<open>Cascade of projections\<close>

lemmas operator_chars = RO_PROJECTION_def RO_SELECTION_def RO_UNION_def RO_INTERSECT_def
  RO_NAT_JOIN_def RO_THETA_JOIN_def RO_EXCEPT_def RO_RENAME_def

text \<open>
  C7, as the specification states it: the rewriter elides a projection and its argument
  when the argument's attribute set is a subset of the attribute set last emitted, and
  appends them otherwise. This fails on the code, which calls the subset test with the
  argument as the set and the list last emitted as the subset: after \<open>p [a;b;c]\<close> the
  projection \<open>p [a;b]\<close> is appended although a;b is a subset of a;b;c, and the
  projection \<open>p [a;b;c;d]\<close> is elided although a;b;c;d is not.
\<close>

theorem cascade_test_runs_the_other_way:
  "AK_rel_eq_projection 255 no_tables blank_root
      [operator ''p'', attribs ''a;b;c'', operator ''p'', attribs ''a;b'', operand ''R''] =
     Inr [operator ''p'', attribs ''a;b;c'', operator ''p'', attribs ''a;b'', operand ''R'']
   \<and> set (attribute_list (attribs ''a;b'')) \<subseteq> set (attribute_list (attribs ''a;b;c''))
   \<and> AK_rel_eq_projection 255 no_tables blank_root
      [operator ''p'', attribs ''a;b;c'', operator ''p'', attribs ''a;b;c;d'', operand ''R''] =
     Inr [operator ''p'', attribs ''a;b;c'', operand ''R'']
   \<and> \<not> set (attribute_list (attribs ''a;b;c;d'')) \<subseteq> set (attribute_list (attribs ''a;b;c''))"
  by code_simp

lemma loop_projection:
  "type list_elem = TYPE_OPERATOR \<Longrightarrow> data0 list_elem = RO_PROJECTION \<Longrightarrow>
     rewrite_loop max_tokens schema root temp (list_elem # next # rest) =
       (case projection_step max_tokens temp list_elem (Some next) of
          Inl e \<Rightarrow> Inl e
        | Inr temp' \<Rightarrow> rewrite_loop max_tokens schema root temp' rest)"
  by (simp add: operator_step_def Let_def split: sum.splits)

lemma projection_step_no_attribs:
  "temp = [] \<or> type (last temp) \<noteq> TYPE_ATTRIBS \<Longrightarrow>
     projection_step max_tokens temp list_elem (Some next) = Inr (temp @ [list_elem, next])"
  by (auto simp: projection_step_def)

lemma projection_after_attribs:
  assumes "is_projection list_elem"
    and "temp \<noteq> []" and "type (last temp) = TYPE_ATTRIBS"
    and "distinct (attribute_list next)" and "distinct (attribute_list (last temp))"
    and "length (attribute_list next) < max_tokens"
    and "length (attribute_list (last temp)) < max_tokens"
  shows "rewrite_loop max_tokens schema root temp (list_elem # next # rest) =
     rewrite_loop max_tokens schema root
       (if set (attribute_list (last temp)) \<subseteq> set (attribute_list next) then temp
        else temp @ [list_elem, next]) rest"
proof -
  have "AK_rel_eq_is_subset max_tokens next (last temp) = EXIT_SUCCESS
      \<longleftrightarrow> set (attribute_list (last temp)) \<subseteq> set (attribute_list next)"
    using assms(4-7) by (rule is_subset_distinct)
  moreover have "AK_rel_eq_is_subset max_tokens next (last temp) = EXIT_SUCCESS
      \<or> AK_rel_eq_is_subset max_tokens next (last temp) = EXIT_FAILURE"
    by (simp add: AK_rel_eq_is_subset_def Let_def)
  moreover have "projection_step max_tokens temp list_elem (Some next) =
      Inr (if AK_rel_eq_is_subset max_tokens next (last temp) = EXIT_FAILURE
           then temp @ [list_elem, next] else temp)"
    using assms(2,3) by (simp add: projection_step_def)
  moreover have "rewrite_loop max_tokens schema root temp (list_elem # next # rest) =
      (case projection_step max_tokens temp list_elem (Some next) of
         Inl e \<Rightarrow> Inl e
       | Inr temp' \<Rightarrow> rewrite_loop max_tokens schema root temp' rest)"
    using assms(1) by (intro loop_projection) (simp_all add: is_projection_def)
  ultimately show ?thesis
    by (auto simp: EXIT_SUCCESS_def EXIT_FAILURE_def)
qed

lemma projection_after_other:
  assumes "is_projection list_elem" and "temp = [] \<or> type (last temp) \<noteq> TYPE_ATTRIBS"
  shows "rewrite_loop max_tokens schema root temp (list_elem # next # rest) =
     rewrite_loop max_tokens schema root (temp @ [list_elem, next]) rest"
proof -
  have "rewrite_loop max_tokens schema root temp (list_elem # next # rest) =
      (case projection_step max_tokens temp list_elem (Some next) of
         Inl e \<Rightarrow> Inl e
       | Inr temp' \<Rightarrow> rewrite_loop max_tokens schema root temp' rest)"
    using assms(1) by (intro loop_projection) (simp_all add: is_projection_def)
  with projection_step_no_attribs [OF assms(2)] show ?thesis by simp
qed

text \<open>
  C7, amended: for every projection operator token op with attribute argument arg read by
  the rewriter. When the last token on the output stream is the attribute-set token
  prev_top (both lists without duplicates and with fewer than \<open>MAX_TOKENS\<close> names): if
  prev_top's attribute set is a subset of arg's, the rewriter elides op and arg (emits
  nothing for them); otherwise it appends op and arg to the output. When the output
  stream is empty or its last token is not an attribute set, it appends op and arg.
\<close>

theorem projection_elided_when_previous_list_is_subset:
  assumes "is_projection list_elem"
  shows "(temp \<noteq> [] \<and> type (last temp) = TYPE_ATTRIBS
          \<and> distinct (attribute_list next) \<and> distinct (attribute_list (last temp))
          \<and> length (attribute_list next) < max_tokens
          \<and> length (attribute_list (last temp)) < max_tokens
          \<longrightarrow> rewrite_loop max_tokens schema root temp (list_elem # next # rest) =
               rewrite_loop max_tokens schema root
                 (if set (attribute_list (last temp)) \<subseteq> set (attribute_list next) then temp
                  else temp @ [list_elem, next]) rest)
     \<and> (temp = [] \<or> type (last temp) \<noteq> TYPE_ATTRIBS
          \<longrightarrow> rewrite_loop max_tokens schema root temp (list_elem # next # rest) =
               rewrite_loop max_tokens schema root (temp @ [list_elem, next]) rest)"
  using projection_after_attribs [OF assms] projection_after_other [OF assms] by blast

lemma tokens_abcd: "attribute_list (attribs ''a;b;c;d'') = [''a'', ''b'', ''c'', ''d'']"
  by code_simp

theorem projection_elided_when_previous_list_is_subset_witness:
  "is_projection (operator ''p'')
   \<and> type (last [operator ''p'', attribs ''a;b;c'']) = TYPE_ATTRIBS
   \<and> distinct (attribute_list (attribs ''a;b;c;d''))
   \<and> distinct (attribute_list (last [operator ''p'', attribs ''a;b;c'']))
   \<and> length (attribute_list (attribs ''a;b;c;d'')) < 255
   \<and> length (attribute_list (last [operator ''p'', attribs ''a;b;c''])) < 255
   \<and> rewrite_loop 255 no_tables blank_root [operator ''p'', attribs ''a;b;c'']
        [operator ''p'', attribs ''a;b;c;d'', operand ''R''] =
      Inr [operator ''p'', attribs ''a;b;c'', operand ''R'']"
proof -
  have h: "is_projection (operator ''p'')"
    by (simp add: is_projection_def operator_def data0_def RO_PROJECTION_def)
  have a: "type (last [operator ''p'', attribs ''a;b;c'']) = TYPE_ATTRIBS"
    by (simp add: attribs_def)
  have b: "distinct (attribute_list (attribs ''a;b;c;d''))" by (simp add: tokens_abcd)
  have c: "distinct (attribute_list (last [operator ''p'', attribs ''a;b;c'']))"
    by (simp add: tokens_abc)
  have d: "length (attribute_list (attribs ''a;b;c;d'')) < 255" by (simp add: tokens_abcd)
  have e: "length (attribute_list (last [operator ''p'', attribs ''a;b;c''])) < 255"
    by (simp add: tokens_abc)
  have "rewrite_loop 255 no_tables blank_root [operator ''p'', attribs ''a;b;c'']
        [operator ''p'', attribs ''a;b;c;d'', operand ''R''] =
      rewrite_loop 255 no_tables blank_root [operator ''p'', attribs ''a;b;c''] [operand ''R'']"
    using projection_elided_when_previous_list_is_subset
      [OF h, of "[operator ''p'', attribs ''a;b;c'']" "attribs ''a;b;c;d''" 255
         no_tables blank_root "[operand ''R'']"] a b c d e
    by (simp add: tokens_abc tokens_abcd)
  moreover have "rewrite_loop 255 no_tables blank_root [operator ''p'', attribs ''a;b;c'']
      [operand ''R''] = Inr [operator ''p'', attribs ''a;b;c'', operand ''R'']"
    by (simp add: operand_def)
  ultimately show ?thesis using h a b c d e by simp
qed

subsection \<open>A second pass\<close>

text \<open>
  C9, as the specification states it: applying the rewriter twice gives the output of
  applying it once. This fails on the code: in the projection of R union (S union T) the
  first pass distributes the projection over the first operand only, and a second pass
  distributes it once more.
\<close>

theorem second_pass_distributes_again:
  "AK_rel_eq_projection 255 no_tables blank_root
      [operator ''p'', attribs ''a'', operand ''R'', operand ''S'', operand ''T'',
       operator ''u'', operator ''u''] =
     Inr [operator ''p'', attribs ''a'', operand ''R'', operator ''p'', attribs ''a'',
          operand ''S'', operand ''T'', operator ''u'', operator ''u'']
   \<and> AK_rel_eq_projection 255 no_tables blank_root
      [operator ''p'', attribs ''a'', operand ''R'', operator ''p'', attribs ''a'',
       operand ''S'', operand ''T'', operator ''u'', operator ''u''] =
     Inr [operator ''p'', attribs ''a'', operand ''R'', operator ''p'', attribs ''a'',
          operand ''S'', operator ''p'', attribs ''a'', operand ''T'', operator ''u'',
          operator ''u'']"
  by code_simp

lemma loop_nat_join:
  "type list_elem = TYPE_OPERATOR \<Longrightarrow> data0 list_elem = RO_NAT_JOIN \<Longrightarrow>
     rewrite_loop max_tokens schema root temp (list_elem # next # rest) =
       rewrite_loop max_tokens schema root (temp @ [list_elem, next]) rest"
  by (simp add: operator_step_def Let_def operator_chars)

lemma loop_operand:
  "type list_elem = TYPE_OPERAND \<Longrightarrow>
     rewrite_loop max_tokens schema root temp (list_elem # rest) =
       rewrite_loop max_tokens schema root (temp @ [list_elem]) rest"
proof -
  assume t: "type list_elem = TYPE_OPERAND"
  then have eq: "\<lparr>type = TYPE_OPERAND, data = data list_elem\<rparr> = list_elem"
    by (cases list_elem) simp
  show ?thesis using t by (simp add: eq)
qed

lemma loop_skipped_type:
  "type list_elem \<noteq> TYPE_OPERATOR \<Longrightarrow> type list_elem \<noteq> TYPE_OPERAND \<Longrightarrow>
     rewrite_loop max_tokens schema root temp (list_elem # rest) =
       rewrite_loop max_tokens schema root temp rest"
  by (cases "type list_elem") simp_all

lemma loop_other_operator:
  assumes "type list_elem = TYPE_OPERATOR"
    and "data0 list_elem \<noteq> RO_PROJECTION" and "data0 list_elem \<noteq> RO_NAT_JOIN"
    and "data0 list_elem \<noteq> RO_SELECTION" and "data0 list_elem \<noteq> RO_UNION"
    and "data0 list_elem \<noteq> RO_INTERSECT" and "data0 list_elem \<noteq> RO_THETA_JOIN"
  shows "rewrite_loop max_tokens schema root temp (list_elem # rest) =
       rewrite_loop max_tokens schema root
         (if data0 list_elem = RO_EXCEPT \<or> data0 list_elem = RO_RENAME
          then temp @ [list_elem] else temp) rest"
  using assms by (simp add: operator_step_def Let_def)

lemma projection_step_cases:
  "projection_step max_tokens temp list_elem (Some next) = Inr temp
   \<or> projection_step max_tokens temp list_elem (Some next) = Inr (temp @ [list_elem, next])"
  by (simp add: projection_step_def)

lemma plain_stream_second_pass:
  "plain_stream input \<Longrightarrow>
     \<exists>out. rewrite_loop max_tokens schema root temp input = Inr (temp @ out)
       \<and> plain_stream out
       \<and> rewrite_loop max_tokens schema root temp out = Inr (temp @ out)"
proof (induction input arbitrary: temp rule: plain_stream.induct)
  case 1
  show ?case by (rule exI [of _ "[]"]) simp
next
  case (2 list_elem rest)
  show ?case
  proof (cases "type list_elem = TYPE_OPERATOR")
    case operator: True
    show ?thesis
    proof (cases "data0 list_elem = RO_PROJECTION \<or> data0 list_elem = RO_NAT_JOIN")
      case True
      with operator "2.prems" obtain arg rest' where rest: "rest = arg # rest'"
        and plain: "plain_stream rest'"
        by (cases rest) auto
      have IH: "\<And>temp. \<exists>out. rewrite_loop max_tokens schema root temp rest' = Inr (temp @ out)
          \<and> plain_stream out \<and> rewrite_loop max_tokens schema root temp out = Inr (temp @ out)"
        using "2.IH"(1) [OF operator True] plain rest by simp
      show ?thesis
      proof (cases "data0 list_elem = RO_PROJECTION
          \<and> projection_step max_tokens temp list_elem (Some arg) = Inr temp")
        case elided: True
        from IH [of temp] obtain out where
          out: "rewrite_loop max_tokens schema root temp rest' = Inr (temp @ out)"
            "plain_stream out" "rewrite_loop max_tokens schema root temp out = Inr (temp @ out)"
          by blast
        from elided operator out(1) rest
        have "rewrite_loop max_tokens schema root temp (list_elem # rest) = Inr (temp @ out)"
          by (simp only: loop_projection) simp
        with out show ?thesis by blast
      next
        case appended: False
        have step: "\<And>tail. rewrite_loop max_tokens schema root temp (list_elem # arg # tail) =
            rewrite_loop max_tokens schema root (temp @ [list_elem, arg]) tail"
        proof -
          fix tail
          show "rewrite_loop max_tokens schema root temp (list_elem # arg # tail) =
            rewrite_loop max_tokens schema root (temp @ [list_elem, arg]) tail"
          proof (cases "data0 list_elem = RO_PROJECTION")
            case True
            with appended projection_step_cases [of max_tokens temp list_elem arg]
            have "projection_step max_tokens temp list_elem (Some arg) =
                Inr (temp @ [list_elem, arg])" by blast
            with True operator show ?thesis by (simp only: loop_projection) simp
          next
            case False
            with \<open>data0 list_elem = RO_PROJECTION \<or> data0 list_elem = RO_NAT_JOIN\<close>
            have "data0 list_elem = RO_NAT_JOIN" by simp
            with operator show ?thesis by (rule loop_nat_join)
          qed
        qed
        from IH [of "temp @ [list_elem, arg]"] obtain out where
          out: "rewrite_loop max_tokens schema root (temp @ [list_elem, arg]) rest' =
              Inr ((temp @ [list_elem, arg]) @ out)"
            "plain_stream out"
            "rewrite_loop max_tokens schema root (temp @ [list_elem, arg]) out =
              Inr ((temp @ [list_elem, arg]) @ out)"
          by blast
        have "rewrite_loop max_tokens schema root temp (list_elem # rest) =
            Inr (temp @ (list_elem # arg # out))"
          using step [of rest'] out(1) rest by simp
        moreover have "plain_stream (list_elem # arg # out)"
          using operator True out(2) by simp
        moreover have "rewrite_loop max_tokens schema root temp (list_elem # arg # out) =
            Inr (temp @ (list_elem # arg # out))"
          using step [of out] out(3) by simp
        ultimately show ?thesis by blast
      qed
    next
      case False
      with operator "2.prems" have other:
        "data0 list_elem \<noteq> RO_PROJECTION" "data0 list_elem \<noteq> RO_NAT_JOIN"
        "data0 list_elem \<noteq> RO_SELECTION" "data0 list_elem \<noteq> RO_UNION"
        "data0 list_elem \<noteq> RO_INTERSECT" "data0 list_elem \<noteq> RO_THETA_JOIN"
        and plain: "plain_stream rest"
        by simp_all
      note step = loop_other_operator [OF operator other]
      have IH: "\<And>temp. \<exists>out. rewrite_loop max_tokens schema root temp rest = Inr (temp @ out)
          \<and> plain_stream out \<and> rewrite_loop max_tokens schema root temp out = Inr (temp @ out)"
        using "2.IH"(2) [OF operator False] plain by simp
      show ?thesis
      proof (cases "data0 list_elem = RO_EXCEPT \<or> data0 list_elem = RO_RENAME")
        case True
        from IH [of "temp @ [list_elem]"] obtain out where
          out: "rewrite_loop max_tokens schema root (temp @ [list_elem]) rest =
              Inr ((temp @ [list_elem]) @ out)"
            "plain_stream out"
            "rewrite_loop max_tokens schema root (temp @ [list_elem]) out =
              Inr ((temp @ [list_elem]) @ out)"
          by blast
        have "rewrite_loop max_tokens schema root temp (list_elem # rest) =
            Inr (temp @ (list_elem # out))"
          using step [of max_tokens schema root temp rest] True out(1) by simp
        moreover have "plain_stream (list_elem # out)"
          using operator other out(2) by simp
        moreover have "rewrite_loop max_tokens schema root temp (list_elem # out) =
            Inr (temp @ (list_elem # out))"
          using step [of max_tokens schema root temp out] True out(3) by simp
        ultimately show ?thesis by blast
      next
        case dropped: False
        from IH [of temp] obtain out where
          out: "rewrite_loop max_tokens schema root temp rest = Inr (temp @ out)"
            "plain_stream out" "rewrite_loop max_tokens schema root temp out = Inr (temp @ out)"
          by blast
        have "rewrite_loop max_tokens schema root temp (list_elem # rest) = Inr (temp @ out)"
          using step [of max_tokens schema root temp rest] dropped out(1) by simp
        with out show ?thesis by blast
      qed
    qed
  next
    case no_operator: False
    with "2.prems" have plain: "plain_stream rest" by simp
    have IH: "\<And>temp. \<exists>out. rewrite_loop max_tokens schema root temp rest = Inr (temp @ out)
        \<and> plain_stream out \<and> rewrite_loop max_tokens schema root temp out = Inr (temp @ out)"
      using "2.IH"(3) [OF no_operator] plain by simp
    show ?thesis
    proof (cases "type list_elem = TYPE_OPERAND")
      case True
      note step = loop_operand [OF True]
      from IH [of "temp @ [list_elem]"] obtain out where
        out: "rewrite_loop max_tokens schema root (temp @ [list_elem]) rest =
            Inr ((temp @ [list_elem]) @ out)"
          "plain_stream out"
          "rewrite_loop max_tokens schema root (temp @ [list_elem]) out =
            Inr ((temp @ [list_elem]) @ out)"
        by blast
      have "rewrite_loop max_tokens schema root temp (list_elem # rest) =
          Inr (temp @ (list_elem # out))"
        using step [of max_tokens schema root temp rest] out(1) by simp
      moreover have "plain_stream (list_elem # out)"
        using True out(2) by simp
      moreover have "rewrite_loop max_tokens schema root temp (list_elem # out) =
          Inr (temp @ (list_elem # out))"
        using step [of max_tokens schema root temp out] out(3) by simp
      ultimately show ?thesis by blast
    next
      case False
      from IH [of temp] obtain out where
        out: "rewrite_loop max_tokens schema root temp rest = Inr (temp @ out)"
          "plain_stream out" "rewrite_loop max_tokens schema root temp out = Inr (temp @ out)"
        by blast
      have "rewrite_loop max_tokens schema root temp (list_elem # rest) = Inr (temp @ out)"
        using loop_skipped_type [OF no_operator False, of max_tokens schema root temp rest] out(1)
        by simp
      with out show ?thesis by blast
    qed
  qed
qed

text \<open>
  C9, amended: for every input stream without selection, union, intersect and theta-join
  operators, in which every projection and natural-join operator is followed by its
  argument, the rewriter returns an output stream, and applying it to that output yields
  the same output again. (On streams with the other operators a second pass can move or
  insert tokens again.)
\<close>

theorem rewriter_idempotent_on_plain_streams:
  assumes "plain_stream list_rel_eq"
  shows "\<exists>out. AK_rel_eq_projection max_tokens schema root list_rel_eq = Inr out
     \<and> AK_rel_eq_projection max_tokens schema root out = Inr out"
  using plain_stream_second_pass [OF assms, of max_tokens schema root "[]"]
  by (auto simp: AK_rel_eq_projection_def)

theorem rewriter_idempotent_on_plain_streams_witness:
  "plain_stream
      [operator ''p'', attribs ''a;b;c'', operator ''p'', attribs ''a;b;c;d'', operand ''R'',
       operand ''S'', operator ''j'', attribs ''a'']
   \<and> AK_rel_eq_projection 255 no_tables blank_root
        [operator ''p'', attribs ''a;b;c'', operator ''p'', attribs ''a;b;c;d'', operand ''R'',
       operand ''S'', operator ''j'', attribs ''a''] =
      Inr [operator ''p'', attribs ''a;b;c'', operand ''R'', operand ''S'', operator ''j'',
           attribs ''a'']
   \<and> AK_rel_eq_projection 255 no_tables blank_root
        [operator ''p'', attribs ''a;b;c'', operand ''R'', operand ''S'', operator ''j'',
           attribs ''a''] =
      Inr [operator ''p'', attribs ''a;b;c'', operand ''R'', operand ''S'', operator ''j'',
           attribs ''a'']"
proof -
  have h: "plain_stream
      [operator ''p'', attribs ''a;b;c'', operator ''p'', attribs ''a;b;c;d'', operand ''R'',
       operand ''S'', operator ''j'', attribs ''a'']"
    by code_simp
  from rewriter_idempotent_on_plain_streams [OF h, of 255 no_tables blank_root]
  obtain out where
    once: "AK_rel_eq_projection 255 no_tables blank_root
        [operator ''p'', attribs ''a;b;c'', operator ''p'', attribs ''a;b;c;d'', operand ''R'',
       operand ''S'', operator ''j'', attribs ''a''] =
      Inr out"
    and twice: "AK_rel_eq_projection 255 no_tables blank_root out = Inr out"
    by blast
  have "AK_rel_eq_projection 255 no_tables blank_root
        [operator ''p'', attribs ''a;b;c'', operator ''p'', attribs ''a;b;c;d'', operand ''R'',
       operand ''S'', operator ''j'', attribs ''a''] =
      Inr [operator ''p'', attribs ''a;b;c'', operand ''R'', operand ''S'', operator ''j'',
           attribs ''a'']"
    by code_simp
  with once have "out = [operator ''p'', attribs ''a;b;c'', operand ''R'', operand ''S'', operator ''j'',
           attribs ''a'']" by simp
  with once twice h show ?thesis by simp
qed

end
